theory Spec2Isabelle
  imports Main "HOL-Library.Sublist"
begin

section \<open>proto-sync: the go.mod annotation parser and the sync service\<close>

text \<open>
  A shallow embedding of two Go files of the repository:
  \<^item> \<^verbatim>\<open>internal/infrastructure/gomod_repository.go\<close>, function
    \<^verbatim>\<open>ParseProtobufLibraries\<close>;
  \<^item> \<^verbatim>\<open>internal/app/proto_sync_service.go\<close>, functions \<^verbatim>\<open>ValidateConfig\<close>,
    \<^verbatim>\<open>Sync\<close>, \<^verbatim>\<open>processRepository\<close>, \<^verbatim>\<open>dryRunRepository\<close>,
    \<^verbatim>\<open>copySpecificFile\<close> and \<^verbatim>\<open>copyAllProtoFiles\<close>.

  A Go \<^verbatim>\<open>string\<close> is a byte sequence, here a \<^typ>\<open>string\<close>. A Go \<^verbatim>\<open>error\<close> is
  modelled by its message: \<^verbatim>\<open>nil\<close> is \<^term>\<open>None\<close>, and a function returning
  \<^verbatim>\<open>(T, error)\<close> returns a sum whose left side is the message. Calls to the logger and to
  \<^verbatim>\<open>fmt.Printf\<close> only print; they are left out.
\<close>

subsection \<open>Data model (\<^verbatim>\<open>internal/domain/entities.go\<close>)\<close>

type_synonym error = string

record Repository =
  Name :: string
  Version :: string
  URL :: string

text \<open>\<^verbatim>\<open>Size\<close> is an \<^verbatim>\<open>int64\<close> and \<^verbatim>\<open>ModifiedTime\<close> a \<^verbatim>\<open>time.Time\<close>; the service only
  copies them or leaves them at their zero value, so both are integers here.\<close>

record ProtoFile =
  File_Name :: string
  File_Path :: string
  Size :: int
  ModifiedTime :: int

record SyncConfig =
  Repositories :: "Repository list"
  SourcePath :: string
  TargetPath :: string
  BufYamlPath :: string
  GoModPath :: string
  SpecificFile :: string
  DryRun :: bool
  SingleRepo :: bool
  ListVersions :: bool
  SpecifiedVersion :: string

record SyncResult =
  Repository :: Repository
  FilesUpdated :: "ProtoFile list"
  Success :: bool
  Error :: "error option"

record ModuleInfo =
  Module_Name :: string
  Module_Path :: string

record GoModInfo =
  GoMod_Repositories :: "Repository list"
  GoMod_ModuleName :: string

subsection \<open>The functions of Go's \<^verbatim>\<open>strings\<close> package that the code calls\<close>

text \<open>
  \<^verbatim>\<open>strings.ToLower\<close> and \<^verbatim>\<open>strings.TrimSpace\<close> are modelled on ASCII text: on bytes
  from \<open>0x80\<close> on Go decodes UTF-8 and applies the Unicode tables, which the model does
  not. Theorems about the parser therefore assume \<open>ascii\<close> of the manifest.
\<close>

definition ascii :: "string \<Rightarrow> bool" where
  \<comment> \<open>every byte is below \<open>0x80\<close>: its top bit is clear\<close>
  "ascii s = list_all (\<lambda>c. \<not> digit7 c) s"

fun HasPrefix :: "string \<Rightarrow> string \<Rightarrow> bool" where
  "HasPrefix s [] = True"
| "HasPrefix [] (p # ps) = False"
| "HasPrefix (c # cs) (p # ps) = (c = p \<and> HasPrefix cs ps)"

fun Contains :: "string \<Rightarrow> string \<Rightarrow> bool" where
  "Contains [] sub = HasPrefix [] sub"
| "Contains (c # cs) sub = (HasPrefix (c # cs) sub \<or> Contains cs sub)"

definition TrimPrefix :: "string \<Rightarrow> string \<Rightarrow> string" where
  "TrimPrefix s p = (if HasPrefix s p then drop (length p) s else s)"

definition lower_char :: "char \<Rightarrow> char" where
  "lower_char c =
     (case map_of (zip ''ABCDEFGHIJKLMNOPQRSTUVWXYZ'' ''abcdefghijklmnopqrstuvwxyz'') c of
        Some l \<Rightarrow> l
      | None \<Rightarrow> c)"

definition ToLower :: "string \<Rightarrow> string" where
  "ToLower s = map lower_char s"

definition is_space :: "char \<Rightarrow> bool" where
  \<comment> \<open>\<^verbatim>\<open>unicode.IsSpace\<close> on ASCII: tab, newline, vertical tab, form feed, carriage
      return, space\<close>
  "is_space c = (c \<in> set [CHR 0x09, CHR 0x0A, CHR 0x0B, CHR 0x0C, CHR 0x0D, CHR 0x20])"

definition TrimSpace :: "string \<Rightarrow> string" where
  "TrimSpace s = rev (dropWhile is_space (rev (dropWhile is_space s)))"

fun Join_strings :: "string list \<Rightarrow> string \<Rightarrow> string" where
  \<comment> \<open>\<^verbatim>\<open>strings.Join(elems, sep)\<close>\<close>
  "Join_strings [] sep = []"
| "Join_strings [x] sep = x"
| "Join_strings (x # y # ys) sep = x @ sep @ Join_strings (y # ys) sep"

subsection \<open>The regular expression of the replace directive\<close>

text \<open>
  \<^verbatim>\<open>^\s*replace\s+([^\s]+)\s+([^\s]+)\s*=>\s*([^\s]+)\s+([^\s]+)\<close>

  The pattern is a sequence of literals and of greedy repetitions of one character class,
  four of them captured. Go's \<^verbatim>\<open>regexp\<close> prefers, at each repetition, the longest run
  that lets the rest of the pattern match (leftmost-first semantics); the pattern starts
  with \<^verbatim>\<open>^\<close>, so only a match at offset 0 exists. \<^verbatim>\<open>\s\<close> is the class
  \<^verbatim>\<open>[\t\n\f\r ]\<close>.
\<close>

datatype rx =
  Lit string
| Rep "char \<Rightarrow> bool" nat
| Cap "char \<Rightarrow> bool" nat

definition rx_space :: "char \<Rightarrow> bool" where
  "rx_space c = (c \<in> set [CHR 0x09, CHR 0x0A, CHR 0x0C, CHR 0x0D, CHR 0x20])"

definition rx_nonspace :: "char \<Rightarrow> bool" where
  "rx_nonspace c = (\<not> rx_space c)"

definition runs :: "(char \<Rightarrow> bool) \<Rightarrow> nat \<Rightarrow> string \<Rightarrow> (string \<times> string) list" where
  \<comment> \<open>the ways a greedy repetition of at least \<open>n\<close> characters can split \<open>s\<close>, longest first\<close>
  "runs p n s =
     map (\<lambda>k. (take k s, drop k s)) (rev [n ..< Suc (length (takeWhile p s))])"

fun rx_match :: "rx list \<Rightarrow> string \<Rightarrow> (string list \<times> string) option"
  and rx_try :: "rx list \<Rightarrow> bool \<Rightarrow> (string \<times> string) list \<Rightarrow> (string list \<times> string) option"
where
  "rx_match [] s = Some ([], s)"
| "rx_match (Lit l # r) s =
     (if HasPrefix s l then rx_match r (drop (length l) s) else None)"
| "rx_match (Rep p n # r) s = rx_try r False (runs p n s)"
| "rx_match (Cap p n # r) s = rx_try r True (runs p n s)"
| "rx_try r keep [] = None"
| "rx_try r keep ((t, rest) # cs) =
     (case rx_match r rest of
        Some (groups, left) \<Rightarrow> Some (if keep then t # groups else groups, left)
      | None \<Rightarrow> rx_try r keep cs)"

definition FindStringSubmatch :: "rx list \<Rightarrow> string \<Rightarrow> string list" where
  \<comment> \<open>the whole match followed by the groups; \<^verbatim>\<open>nil\<close> (the empty list) when there is no match\<close>
  "FindStringSubmatch re s =
     (case rx_match re s of
        None \<Rightarrow> []
      | Some (groups, left) \<Rightarrow> take (length s - length left) s # groups)"

definition replaceRegex :: "rx list" where
  "replaceRegex =
     [Rep rx_space 0, Lit ''replace'', Rep rx_space 1, Cap rx_nonspace 1,
      Rep rx_space 1, Cap rx_nonspace 1, Rep rx_space 0, Lit ''=>'', Rep rx_space 0,
      Cap rx_nonspace 1, Rep rx_space 1, Cap rx_nonspace 1]"

subsection \<open>\<^verbatim>\<open>bufio.Scanner\<close> with the default split function \<^verbatim>\<open>ScanLines\<close>\<close>

text \<open>
  The scanner returns the text between line feeds, each line without one trailing carriage
  return; a last line without line feed is returned when it is not empty. Its buffer holds
  at most \<^verbatim>\<open>MaxScanTokenSize = 64 * 1024\<close> bytes: a line of 65536 bytes or more ends the
  scan, and \<^verbatim>\<open>scanner.Err()\<close> is then \<^verbatim>\<open>ErrTooLong\<close>. The accumulator \<open>acc\<close> is the
  current line, reversed, and \<open>n\<close> its length. Read errors of an opened file are not
  modelled.
\<close>

definition dropCR :: "string \<Rightarrow> string" where
  "dropCR l = (if l \<noteq> [] \<and> last l = CHR 0x0D then butlast l else l)"

fun scan_from :: "string \<Rightarrow> nat \<Rightarrow> string \<Rightarrow> string list \<times> error option" where
  "scan_from acc n [] = (if acc = [] then ([], None) else ([dropCR (rev acc)], None))"
| "scan_from acc n (c # cs) =
     (if c = CHR 0x0A then
        (case scan_from [] 0 cs of (ls, e) \<Rightarrow> (dropCR (rev acc) # ls, e))
      else if 65535 \<le> n then ([], Some ''bufio.Scanner: token too long'')
      else scan_from (c # acc) (Suc n) cs)"

definition ScanLines :: "string \<Rightarrow> string list \<times> error option" where
  "ScanLines text = scan_from [] 0 text"

subsection \<open>\<^verbatim>\<open>ParseProtobufLibraries\<close> (gomod_repository.go, lines 31 to 101)\<close>

definition is_marker :: "string \<Rightarrow> bool" where
  \<comment> \<open>line 51, on the trimmed line\<close>
  "is_marker line = Contains (ToLower line) ''// protobuf libraries''"

definition section_end :: "string \<Rightarrow> bool" where
  \<comment> \<open>line 59, on the trimmed line\<close>
  "section_end line =
     (line = [] \<or> (HasPrefix line ''//'' \<and> \<not> Contains (ToLower line) ''protobuf''))"

definition directive :: "string \<Rightarrow> Repository option" where
  \<comment> \<open>lines 64 to 79, on the trimmed line\<close>
  "directive line =
     (let matches = FindStringSubmatch replaceRegex line in
      if length matches = 5 then
        let remoteRepo = matches ! 3;
            remoteVersion = matches ! 4;
            remoteRepo = (if HasPrefix remoteRepo ''github.com/''
                          then TrimPrefix remoteRepo ''github.com/'' else remoteRepo)
        in Some \<lparr>Name = ''github.com/'' @ remoteRepo, Version = remoteVersion,
                 URL = ''https://github.com/'' @ remoteRepo\<rparr>
      else None)"

text \<open>The loop of lines 47 to 84 over the scanned lines. The result is \<open>foundComment\<close>,
  \<open>repositories\<close> and whether the loop was left by \<^verbatim>\<open>break\<close>.\<close>

fun scan_loop :: "bool \<Rightarrow> Repository list \<Rightarrow> string list \<Rightarrow> bool \<times> Repository list \<times> bool" where
  "scan_loop foundComment repositories [] = (foundComment, repositories, False)"
| "scan_loop foundComment repositories (text # rest) =
     (let line = TrimSpace text in
      if is_marker line then scan_loop True repositories rest
      else if foundComment then
        (if section_end line then (foundComment, repositories, True)
         else (case directive line of
                 Some repo \<Rightarrow> scan_loop foundComment (repositories @ [repo]) rest
               | None \<Rightarrow> scan_loop foundComment repositories rest))
      else scan_loop foundComment repositories rest)"

text \<open>The file system is the function \<open>fs\<close>: the content of the file at a path, or the
  message of the error of \<^verbatim>\<open>os.Open\<close>.\<close>

definition ParseProtobufLibraries :: "(string \<Rightarrow> error + string) \<Rightarrow> string \<Rightarrow> error + GoModInfo" where
  "ParseProtobufLibraries fs goModPath =
     (case fs goModPath of
        Inl err \<Rightarrow> Inl (''failed to open go.mod file at '' @ goModPath @ '': '' @ err)
      | Inr text \<Rightarrow>
          (case ScanLines text of (lines, scanErr) \<Rightarrow>
          (case scan_loop False [] lines of (foundComment, repositories, stopped) \<Rightarrow>
             (case (if stopped then None else scanErr) of
                Some err \<Rightarrow> Inl (''error reading go.mod file: '' @ err)
              | None \<Rightarrow>
                  if \<not> foundComment
                  then Inl (''could not find '// Protobuf libraries' comment in '' @ goModPath)
                  else Inr \<lparr>GoMod_Repositories = repositories, GoMod_ModuleName = []\<rparr>))))"

subsection \<open>\<^verbatim>\<open>filepath.Join\<close> on a Unix path\<close>

text \<open>
  \<^verbatim>\<open>filepath.Join(a, b)\<close> skips leading empty elements, joins the rest with a slash
  and cleans the result. \<^verbatim>\<open>filepath.Clean\<close> works element by element: an empty element
  and \<^verbatim>\<open>.\<close> are dropped; \<^verbatim>\<open>..\<close> removes the element before it, is dropped at the
  root, and is kept at the start of a relative path. \<open>out\<close> is the list of the elements
  written so far, the last one first.
\<close>

fun split_sep :: "string \<Rightarrow> string list" where
  "split_sep [] = [[]]"
| "split_sep (c # cs) =
     (if c = CHR ''/'' then [] # split_sep cs
      else (case split_sep cs of [] \<Rightarrow> [[c]] | x # xs \<Rightarrow> (c # x) # xs))"

fun clean_elems :: "bool \<Rightarrow> string list \<Rightarrow> string list \<Rightarrow> string list" where
  "clean_elems rooted out [] = rev out"
| "clean_elems rooted out (e # es) =
     (if e = [] \<or> e = ''.'' then clean_elems rooted out es
      else if e = ''..'' then
        (case out of
           [] \<Rightarrow> if rooted then clean_elems rooted [] es else clean_elems rooted [''..''] es
         | t # ts \<Rightarrow> if t = ''..'' then clean_elems rooted (''..'' # out) es
                     else clean_elems rooted ts es)
      else clean_elems rooted (e # out) es)"

definition Clean :: "string \<Rightarrow> string" where
  "Clean path =
     (if path = [] then ''.''
      else
        let rooted = (hd path = CHR ''/'');
            out = clean_elems rooted [] (split_sep path)
        in if rooted then ''/'' @ Join_strings out ''/''
           else if out = [] then ''.''
           else Join_strings out ''/'')"

definition Join :: "string \<Rightarrow> string \<Rightarrow> string" where
  "Join a b =
     (if a \<noteq> [] then Clean (a @ ''/'' @ b)
      else if b \<noteq> [] then Clean b
      else [])"

subsection \<open>Collaborators (\<^verbatim>\<open>internal/domain/interfaces.go\<close>)\<close>

text \<open>
  The service reaches the file system, the Go tool chain and buf.yaml only through the
  interfaces \<^verbatim>\<open>FileRepository\<close>, \<^verbatim>\<open>GoModRepository\<close> and \<^verbatim>\<open>BufRepository\<close>. An
  implementation is any family of functions on a world \<open>'w\<close>: a method reads the world
  and returns its result with the world it leaves behind. A \<^verbatim>\<open>context.Context\<close> is the
  predicate that tells in which worlds it is cancelled; the service hands it to
  \<^verbatim>\<open>DownloadModule\<close>. A method with a pointer result and no error is taken to return a
  pointer that is not \<^verbatim>\<open>nil\<close>.
\<close>

type_synonym 'w Context = "'w \<Rightarrow> bool"

record 'w Collaborators =
  fileRepo_CopyFile :: "string \<Rightarrow> string \<Rightarrow> 'w \<Rightarrow> error option \<times> 'w"
  fileRepo_CreateDir :: "string \<Rightarrow> 'w \<Rightarrow> error option \<times> 'w"
  fileRepo_FileExists :: "string \<Rightarrow> 'w \<Rightarrow> bool \<times> 'w"
  fileRepo_ListFiles :: "string \<Rightarrow> string \<Rightarrow> 'w \<Rightarrow> (ProtoFile list \<times> error option) \<times> 'w"
  fileRepo_MakeWritable :: "string \<Rightarrow> 'w \<Rightarrow> error option \<times> 'w"
  goModRepo_ParseProtobufLibraries :: "string \<Rightarrow> 'w \<Rightarrow> (error + GoModInfo) \<times> 'w"
  goModRepo_DownloadModule :: "'w Context \<Rightarrow> string \<Rightarrow> string \<Rightarrow> 'w \<Rightarrow> error option \<times> 'w"
  goModRepo_GetModulePath :: "string \<Rightarrow> string \<Rightarrow> 'w \<Rightarrow> (error + string) \<times> 'w"
  bufRepo_ParseBufYaml :: "string \<Rightarrow> 'w \<Rightarrow> (error + ModuleInfo) \<times> 'w"

text \<open>Every call of a collaborator method is recorded, in order, next to the world.
  \<^verbatim>\<open>ReadFile\<close> and \<^verbatim>\<open>WriteFile\<close> belong to \<^verbatim>\<open>FileRepository\<close>; the service has no
  call of either.\<close>

datatype call =
  Call_ReadFile string
| Call_WriteFile string
| Call_CopyFile string string
| Call_CreateDir string
| Call_FileExists string
| Call_ListFiles string string
| Call_MakeWritable string
| Call_ParseProtobufLibraries string
| Call_DownloadModule string string
| Call_GetModulePath string string
| Call_ParseBufYaml string

fun is_write :: "call \<Rightarrow> bool" where
  "is_write (Call_WriteFile p) = True"
| "is_write (Call_CopyFile src dst) = True"
| "is_write (Call_CreateDir p) = True"
| "is_write (Call_MakeWritable p) = True"
| "is_write c = False"

record 'w state =
  world :: 'w
  calls :: "call list"

definition invoke :: "call \<Rightarrow> ('w \<Rightarrow> 'a \<times> 'w) \<Rightarrow> 'w state \<Rightarrow> 'a \<times> 'w state" where
  "invoke c m s = (case m (world s) of (r, w) \<Rightarrow> (r, \<lparr>world = w, calls = calls s @ [c]\<rparr>))"

definition CopyFile :: "'w Collaborators \<Rightarrow> string \<Rightarrow> string \<Rightarrow> 'w state \<Rightarrow> error option \<times> 'w state" where
  "CopyFile env src dst = invoke (Call_CopyFile src dst) (fileRepo_CopyFile env src dst)"

definition CreateDir :: "'w Collaborators \<Rightarrow> string \<Rightarrow> 'w state \<Rightarrow> error option \<times> 'w state" where
  "CreateDir env path = invoke (Call_CreateDir path) (fileRepo_CreateDir env path)"

definition FileExists :: "'w Collaborators \<Rightarrow> string \<Rightarrow> 'w state \<Rightarrow> bool \<times> 'w state" where
  "FileExists env path = invoke (Call_FileExists path) (fileRepo_FileExists env path)"

definition ListFiles :: "'w Collaborators \<Rightarrow> string \<Rightarrow> string \<Rightarrow> 'w state
    \<Rightarrow> (ProtoFile list \<times> error option) \<times> 'w state" where
  "ListFiles env path pattern =
     invoke (Call_ListFiles path pattern) (fileRepo_ListFiles env path pattern)"

definition MakeWritable :: "'w Collaborators \<Rightarrow> string \<Rightarrow> 'w state \<Rightarrow> error option \<times> 'w state" where
  "MakeWritable env path = invoke (Call_MakeWritable path) (fileRepo_MakeWritable env path)"

definition ParseLibraries :: "'w Collaborators \<Rightarrow> string \<Rightarrow> 'w state \<Rightarrow> (error + GoModInfo) \<times> 'w state" where
  \<comment> \<open>\<^verbatim>\<open>p.goModRepo.ParseProtobufLibraries\<close>\<close>
  "ParseLibraries env path =
     invoke (Call_ParseProtobufLibraries path) (goModRepo_ParseProtobufLibraries env path)"

definition DownloadModule :: "'w Collaborators \<Rightarrow> 'w Context \<Rightarrow> string \<Rightarrow> string \<Rightarrow> 'w state
    \<Rightarrow> error option \<times> 'w state" where
  "DownloadModule env ctx repo version =
     invoke (Call_DownloadModule repo version) (goModRepo_DownloadModule env ctx repo version)"

definition GetModulePath :: "'w Collaborators \<Rightarrow> string \<Rightarrow> string \<Rightarrow> 'w state \<Rightarrow> (error + string) \<times> 'w state" where
  "GetModulePath env repo version =
     invoke (Call_GetModulePath repo version) (goModRepo_GetModulePath env repo version)"

definition ParseBufYaml :: "'w Collaborators \<Rightarrow> string \<Rightarrow> 'w state \<Rightarrow> (error + ModuleInfo) \<times> 'w state" where
  "ParseBufYaml env path = invoke (Call_ParseBufYaml path) (bufRepo_ParseBufYaml env path)"

subsection \<open>\<^verbatim>\<open>ValidateConfig\<close> (proto_sync_service.go, lines 34 to 61)\<close>

text \<open>The configuration is passed by pointer: \<^term>\<open>None\<close> is the \<^verbatim>\<open>nil\<close> pointer.\<close>

definition ValidateConfig :: "'w Collaborators \<Rightarrow> SyncConfig option \<Rightarrow> 'w state \<Rightarrow> error option \<times> 'w state" where
  "ValidateConfig env config s =
     (case config of
        None \<Rightarrow> (Some ''config cannot be nil'', s)
      | Some c \<Rightarrow>
          if BufYamlPath c = [] then (Some ''buf.yaml path is required'', s)
          else if GoModPath c = [] then (Some ''go.mod path is required'', s)
          else if SourcePath c = [] then (Some ''source path is required'', s)
          else
            (case FileExists env (BufYamlPath c) s of (bufExists, s1) \<Rightarrow>
               if \<not> bufExists
               then (Some (''buf.yaml file not found at: '' @ BufYamlPath c), s1)
               else if length (Repositories c) = 0 then
                 (case FileExists env (GoModPath c) s1 of (modExists, s2) \<Rightarrow>
                    if \<not> modExists
                    then (Some (''go.mod file not found at: '' @ GoModPath c), s2)
                    else (None, s2))
               else (None, s1)))"

subsection \<open>\<^verbatim>\<open>copySpecificFile\<close> (lines 238 to 272)\<close>

definition no_file :: ProtoFile where
  \<comment> \<open>\<^verbatim>\<open>domain.ProtoFile{}\<close>\<close>
  "no_file = \<lparr>File_Name = [], File_Path = [], Size = 0, ModifiedTime = 0\<rparr>"

definition copySpecificFile :: "'w Collaborators \<Rightarrow> string \<Rightarrow> string \<Rightarrow> string \<Rightarrow> 'w state
    \<Rightarrow> (ProtoFile \<times> error option) \<times> 'w state" where
  "copySpecificFile env sourcePath targetPath fileName s =
     (let sourceFile = Join sourcePath fileName;
          targetFile = Join targetPath fileName
      in case FileExists env sourceFile s of (srcExists, s1) \<Rightarrow>
         if \<not> srcExists then
           (case ListFiles env sourcePath ''*.proto'' s1 of ((availableFiles, _), s2) \<Rightarrow>
              let fileNames = map File_Name availableFiles
              in ((no_file,
                   Some (''specific proto file not found: '' @ sourceFile
                         @ ''\<newline>Available proto files: '' @ Join_strings fileNames '', '')),
                  s2))
         else
           (case FileExists env targetFile s1 of (dstExists, s2) \<Rightarrow>
            (case (if dstExists then MakeWritable env targetFile s2 else (None, s2)) of
               (Some err, s3) \<Rightarrow>
                 ((no_file, Some (''failed to make target file writable: '' @ err)), s3)
             | (None, s3) \<Rightarrow>
                 (case CopyFile env sourceFile targetFile s3 of
                    (Some err, s4) \<Rightarrow> ((no_file, Some (''failed to copy file: '' @ err)), s4)
                  | (None, s4) \<Rightarrow>
                      ((\<lparr>File_Name = fileName, File_Path = targetFile, Size = 0,
                         ModifiedTime = 0\<rparr>, None), s4)))))"

subsection \<open>\<^verbatim>\<open>copyAllProtoFiles\<close> (lines 274 to 314)\<close>

text \<open>Lines 289 to 293: an error of \<^verbatim>\<open>MakeWritable\<close> is logged and the loop goes on.\<close>

fun make_writable_all :: "'w Collaborators \<Rightarrow> ProtoFile list \<Rightarrow> 'w state \<Rightarrow> 'w state" where
  "make_writable_all env [] s = s"
| "make_writable_all env (file # rest) s =
     (case MakeWritable env (File_Path file) s of (_, s1) \<Rightarrow> make_writable_all env rest s1)"

text \<open>Lines 295 to 306: the first error of \<^verbatim>\<open>CopyFile\<close> returns the files copied so far
  with the error.\<close>

fun copy_each :: "'w Collaborators \<Rightarrow> string \<Rightarrow> ProtoFile list \<Rightarrow> ProtoFile list \<Rightarrow> 'w state
    \<Rightarrow> (ProtoFile list \<times> error option) \<times> 'w state" where
  "copy_each env targetPath copiedFiles [] s = ((copiedFiles, None), s)"
| "copy_each env targetPath copiedFiles (sourceFile # rest) s =
     (let targetFile = Join targetPath (File_Name sourceFile)
      in case CopyFile env (File_Path sourceFile) targetFile s of
           (Some err, s1) \<Rightarrow>
             ((copiedFiles, Some (''failed to copy '' @ File_Name sourceFile @ '': '' @ err)), s1)
         | (None, s1) \<Rightarrow>
             copy_each env targetPath
               (copiedFiles @ [\<lparr>File_Name = File_Name sourceFile, File_Path = targetFile,
                                 Size = 0, ModifiedTime = 0\<rparr>])
               rest s1)"

definition copyAllProtoFiles :: "'w Collaborators \<Rightarrow> string \<Rightarrow> string \<Rightarrow> 'w state
    \<Rightarrow> (ProtoFile list \<times> error option) \<times> 'w state" where
  "copyAllProtoFiles env sourcePath targetPath s =
     (case ListFiles env sourcePath ''*.proto'' s of
        ((sourceFiles, Some err), s1) \<Rightarrow> (([], Some (''failed to list proto files: '' @ err)), s1)
      | ((sourceFiles, None), s1) \<Rightarrow>
          if length sourceFiles = 0 then (([], None), s1)
          else
            (case ListFiles env targetPath ''*.proto'' s1 of ((existingFiles, _), s2) \<Rightarrow>
               copy_each env targetPath [] sourceFiles (make_writable_all env existingFiles s2)))"

subsection \<open>\<^verbatim>\<open>dryRunRepository\<close> (lines 193 to 236)\<close>

text \<open>The function prints a preview; what remains is the result and the calls it makes.\<close>

definition dryRunRepository :: "'w Collaborators \<Rightarrow> Repository \<Rightarrow> SyncConfig \<Rightarrow> 'w state
    \<Rightarrow> SyncResult \<times> 'w state" where
  "dryRunRepository env repo config s =
     (let result = \<lparr>Repository = repo, FilesUpdated = [], Success = True, Error = None\<rparr>
      in case GetModulePath env (Name repo) (Version repo) s of
           (Inl err, s1) \<Rightarrow> (result, s1)
         | (Inr modulePath, s1) \<Rightarrow>
             let sourcePath = Join modulePath (SourcePath config)
             in (case FileExists env sourcePath s1 of (srcExists, s2) \<Rightarrow>
                 if srcExists then
                   (if SpecificFile config \<noteq> [] then
                      (case FileExists env (Join sourcePath (SpecificFile config)) s2 of
                         (_, s3) \<Rightarrow> (result, s3))
                    else
                      (case ListFiles env sourcePath ''*.proto'' s2 of
                         (_, s3) \<Rightarrow> (result, s3)))
                 else (result, s2)))"

subsection \<open>\<^verbatim>\<open>processRepository\<close> (lines 132 to 191)\<close>

definition processRepository :: "'w Collaborators \<Rightarrow> 'w Context \<Rightarrow> Repository \<Rightarrow> SyncConfig \<Rightarrow> 'w state
    \<Rightarrow> SyncResult \<times> 'w state" where
  "processRepository env ctx repo config s =
     (let result = \<lparr>Repository = repo, FilesUpdated = [], Success = False, Error = None\<rparr>
      in
      if DryRun config then dryRunRepository env repo config s
      else
        (case DownloadModule env ctx (Name repo) (Version repo) s of
           (Some err, s1) \<Rightarrow>
             (result\<lparr>Error := Some (''failed to download module: '' @ err)\<rparr>, s1)
         | (None, s1) \<Rightarrow>
        (case GetModulePath env (Name repo) (Version repo) s1 of
           (Inl err, s2) \<Rightarrow>
             (result\<lparr>Error := Some (''failed to get module path: '' @ err)\<rparr>, s2)
         | (Inr modulePath, s2) \<Rightarrow>
        (let sourcePath = Join modulePath (SourcePath config)
         in case FileExists env sourcePath s2 of (srcExists, s3) \<Rightarrow>
        if \<not> srcExists
        then (result\<lparr>Error := Some (''source directory not found: '' @ sourcePath)\<rparr>, s3)
        else
        (case FileExists env (TargetPath config) s3 of (dstExists, s4) \<Rightarrow>
        (case (if \<not> dstExists then CreateDir env (TargetPath config) s4 else (None, s4)) of
           (Some err, s5) \<Rightarrow>
             (result\<lparr>Error := Some (''failed to create target directory: '' @ err)\<rparr>, s5)
         | (None, s5) \<Rightarrow>
        if SpecificFile config \<noteq> [] then
          (case copySpecificFile env sourcePath (TargetPath config) (SpecificFile config) s5 of
             ((file, Some err), s6) \<Rightarrow> (result\<lparr>Error := Some err\<rparr>, s6)
           | ((file, None), s6) \<Rightarrow> (result\<lparr>FilesUpdated := [file], Success := True\<rparr>, s6))
        else
          (case copyAllProtoFiles env sourcePath (TargetPath config) s5 of
             ((files, Some err), s6) \<Rightarrow> (result\<lparr>Error := Some err\<rparr>, s6)
           | ((files, None), s6) \<Rightarrow> (result\<lparr>FilesUpdated := files, Success := True\<rparr>, s6))))))))"

subsection \<open>\<^verbatim>\<open>Sync\<close> (lines 63 to 130)\<close>

definition override_version :: "string \<Rightarrow> Repository list \<Rightarrow> Repository list" where
  \<comment> \<open>lines 88 to 93\<close>
  "override_version specifiedVersion repositories =
     (if specifiedVersion \<noteq> []
      then map (\<lambda>repo. repo\<lparr>Version := specifiedVersion\<rparr>) repositories
      else repositories)"

definition single_repo :: "bool \<Rightarrow> Repository list \<Rightarrow> Repository list" where
  \<comment> \<open>lines 95 to 99\<close>
  "single_repo singleRepo repositories =
     (if singleRepo \<and> 1 < length repositories then take 1 repositories else repositories)"

text \<open>
  Lines 64 to 101, up to the loop: validation, the target path from buf.yaml, the list of
  repositories. The result is the configuration with its \<^verbatim>\<open>TargetPath\<close> written and the
  repositories to process, or the error \<^verbatim>\<open>Sync\<close> returns. The second case of a \<^verbatim>\<open>nil\<close>
  configuration is Go's panic at \<^verbatim>\<open>config.BufYamlPath\<close>; \<open>ValidateConfig\<close> never lets
  the run reach it. The loop of lines 90 to 92 writes the version into the elements of the
  slice, which the caller's configuration shares when it named the repositories; nothing
  reads them there afterwards, and the model keeps the new list only.
\<close>

definition resolve :: "'w Collaborators \<Rightarrow> SyncConfig option \<Rightarrow> 'w state
    \<Rightarrow> (error + SyncConfig \<times> Repository list) \<times> 'w state" where
  "resolve env config s =
     (case ValidateConfig env config s of
        (Some err, s1) \<Rightarrow> (Inl (''invalid configuration: '' @ err), s1)
      | (None, s1) \<Rightarrow>
     (case config of
        None \<Rightarrow> (Inl ''panic: nil pointer dereference'', s1)
      | Some c \<Rightarrow>
     (case ParseBufYaml env (BufYamlPath c) s1 of
        (Inl err, s2) \<Rightarrow> (Inl (''failed to parse buf.yaml: '' @ err), s2)
      | (Inr moduleInfo, s2) \<Rightarrow>
     (let c = c\<lparr>TargetPath := Module_Path moduleInfo\<rparr>
      in case (if length (Repositories c) = 0
               then (case ParseLibraries env (GoModPath c) s2 of
                       (Inl err, s3) \<Rightarrow> (Inl (''failed to parse go.mod: '' @ err), s3)
                     | (Inr goModInfo, s3) \<Rightarrow> (Inr (GoMod_Repositories goModInfo), s3))
               else (Inr (Repositories c), s2)) of
           (Inl err, s3) \<Rightarrow> (Inl err, s3)
         | (Inr repositories, s3) \<Rightarrow>
             (Inr (c, single_repo (SingleRepo c)
                        (override_version (SpecifiedVersion c) repositories)), s3)))))"

text \<open>Lines 103 to 111: one call of \<^verbatim>\<open>processRepository\<close> for each repository, the
  result appended.\<close>

fun process_each :: "'w Collaborators \<Rightarrow> 'w Context \<Rightarrow> SyncConfig \<Rightarrow> Repository list \<Rightarrow> 'w state
    \<Rightarrow> SyncResult list \<times> 'w state" where
  "process_each env ctx config [] s = ([], s)"
| "process_each env ctx config (repo # rest) s =
     (case processRepository env ctx repo config s of (result, s1) \<Rightarrow>
      (case process_each env ctx config rest s1 of (results, s2) \<Rightarrow> (result # results, s2)))"

definition Sync :: "'w Collaborators \<Rightarrow> 'w Context \<Rightarrow> SyncConfig option \<Rightarrow> 'w state
    \<Rightarrow> (error + SyncResult list) \<times> 'w state" where
  "Sync env ctx config s =
     (case resolve env config s of
        (Inl err, s1) \<Rightarrow> (Inl err, s1)
      | (Inr (c, repositories), s1) \<Rightarrow>
          (case process_each env ctx c repositories s1 of (results, s2) \<Rightarrow> (Inr results, s2)))"

subsection \<open>Notions of the specification\<close>







definition short_line :: "string \<Rightarrow> bool" where
  \<comment> \<open>a line that the scanner returns as it is: no line feed, within the buffer, no
      trailing carriage return\<close>
  "short_line l =
     (CHR 0x0A \<notin> set l \<and> length l \<le> 65535 \<and> (l = [] \<or> last l \<noteq> CHR 0x0D))"

definition token :: "string \<Rightarrow> bool" where
  \<comment> \<open>a word of a directive: not empty, no character of the class \<^verbatim>\<open>\s\<close>\<close>
  "token t = (t \<noteq> [] \<and> list_all rx_nonspace t)"

definition plain_name :: "string \<Rightarrow> bool" where
  \<comment> \<open>a base file name: not empty, no separator, neither \<^verbatim>\<open>.\<close> nor \<^verbatim>\<open>..\<close>\<close>
  "plain_name f = (f \<noteq> [] \<and> CHR ''/'' \<notin> set f \<and> f \<noteq> ''.'' \<and> f \<noteq> ''..'')"

definition marker_not_found :: "string \<Rightarrow> error" where
  \<comment> \<open>the message of line 91\<close>
  "marker_not_found goModPath = ''could not find '// Protobuf libraries' comment in '' @ goModPath"


definition writes :: "'w state \<Rightarrow> call list" where
  \<comment> \<open>the calls of \<^verbatim>\<open>CopyFile\<close>, \<^verbatim>\<open>WriteFile\<close>, \<^verbatim>\<open>CreateDir\<close> and \<^verbatim>\<open>MakeWritable\<close> so far\<close>
  "writes s = filter is_write (calls s)"

subsection \<open>An example: a manifest, a file system and collaborators\<close>

definition ex_manifest :: string where
  "ex_manifest =
     ''module example.com/test-project\<newline>'' @
     ''\<newline>'' @
     ''// Protobuf libraries\<newline>'' @
     ''replace local-x v0.0.0 => github.com/acme/x v1.2.3\<newline>'' @
     ''replace broken => line\<newline>'' @
     ''replace local-y v0.0.0 => gitlab.com/org/x v0.8.5\<newline>'' @
     ''\<newline>'' @
     ''replace local-z v0.0.0 => github.com/acme/z v1.0.0\<newline>''"

definition ex_unmarked :: string where
  "ex_unmarked =
     ''module example.com/test-project\<newline>'' @
     ''//Protobuf libraries\<newline>'' @
     ''replace local-x v0.0.0 => github.com/acme/x v1.2.3\<newline>''"







definition ex_fs :: "string \<Rightarrow> error + string" where
  "ex_fs path =
     (if path = ''go.mod'' then Inr ex_manifest
      else if path = ''bad/go.mod'' then Inr ex_unmarked
      else Inl (''open '' @ path @ '': no such file or directory''))"

text \<open>The world of the example is the list of the paths that exist. The module of
  \<^verbatim>\<open>github.com/acme/x\<close> can be downloaded and holds \<^verbatim>\<open>a.proto\<close> and \<^verbatim>\<open>b.proto\<close>; no
  other module can. A download under a cancelled context fails, as
  \<^verbatim>\<open>exec.CommandContext\<close> does.\<close>

definition ex_dir :: string where
  "ex_dir = ''/cache/github.com/acme/x@v1.2.3/proto''"

definition ex_files :: "ProtoFile list" where
  "ex_files =
     [\<lparr>File_Name = ''a.proto'', File_Path = ex_dir @ ''/a.proto'', Size = 10, ModifiedTime = 1\<rparr>,
      \<lparr>File_Name = ''b.proto'', File_Path = ex_dir @ ''/b.proto'', Size = 20, ModifiedTime = 2\<rparr>]"

definition ex_env :: "string list Collaborators" where
  "ex_env =
     \<lparr>fileRepo_CopyFile = (\<lambda>src dst w.
        if src \<in> set w then (None, dst # w)
        else (Some (''failed to open source file '' @ src), w)),
      fileRepo_CreateDir = (\<lambda>path w. (None, path # w)),
      fileRepo_FileExists = (\<lambda>path w. (path \<in> set w, w)),
      fileRepo_ListFiles = (\<lambda>path pattern w.
        ((if path = ex_dir \<and> pattern = ''*.proto'' then ex_files else [], None), w)),
      fileRepo_MakeWritable = (\<lambda>path w. (None, w)),
      goModRepo_ParseProtobufLibraries = (\<lambda>path w. (ParseProtobufLibraries ex_fs path, w)),
      goModRepo_DownloadModule = (\<lambda>ctx repo version w.
        if ctx w then (Some ''context canceled'', w)
        else if repo = ''github.com/acme/x'' then (None, w)
        else (Some ''exit status 1'', w)),
      goModRepo_GetModulePath = (\<lambda>repo version w. (Inr (''/cache/'' @ repo @ ''@'' @ version), w)),
      bufRepo_ParseBufYaml = (\<lambda>path w. (Inr \<lparr>Module_Name = [], Module_Path = ''out''\<rparr>, w))\<rparr>"

definition ex_state :: "string list state" where
  "ex_state =
     \<lparr>world = [''buf.yaml'', ''go.mod'', ''out'', ex_dir, ex_dir @ ''/a.proto'', ex_dir @ ''/b.proto''],
      calls = []\<rparr>"

definition running :: "'w Context" where
  "running w = False"

definition cancelled :: "'w Context" where
  "cancelled w = True"

definition repo_x :: Repository where
  "repo_x = \<lparr>Name = ''github.com/acme/x'', Version = ''v1.2.3'', URL = ''https://github.com/acme/x''\<rparr>"

definition repo_y :: Repository where
  "repo_y = \<lparr>Name = ''github.com/acme/y'', Version = ''v0.8.5'', URL = ''https://github.com/acme/y''\<rparr>"

definition ex_config :: SyncConfig where
  "ex_config =
     \<lparr>Repositories = [repo_x, repo_y], SourcePath = ''proto'', TargetPath = [],
      BufYamlPath = ''buf.yaml'', GoModPath = ''go.mod'', SpecificFile = [], DryRun = False,
      SingleRepo = False, ListVersions = False, SpecifiedVersion = []\<rparr>"

definition ex_outcomes :: "SyncResult list" where
  \<comment> \<open>what \<open>Sync\<close> returns for \<open>ex_config\<close>: the first repository copied, the second not
      downloaded\<close>
  "ex_outcomes =
     [\<lparr>Repository = repo_x,
       FilesUpdated =
         [\<lparr>File_Name = ''a.proto'', File_Path = ''out/a.proto'', Size = 0, ModifiedTime = 0\<rparr>,
          \<lparr>File_Name = ''b.proto'', File_Path = ''out/b.proto'', Size = 0, ModifiedTime = 0\<rparr>],
       Success = True, Error = None\<rparr>,
      \<lparr>Repository = repo_y, FilesUpdated = [], Success = False,
       Error = Some ''failed to download module: exit status 1''\<rparr>]"




definition ex_dry_config :: SyncConfig where
  "ex_dry_config = ex_config\<lparr>DryRun := True\<rparr>"

definition ex_override_config :: SyncConfig where
  "ex_override_config = ex_config\<lparr>DryRun := True, SpecifiedVersion := ''v2.0.0''\<rparr>"

definition ex_specific_config :: SyncConfig where
  "ex_specific_config = ex_config\<lparr>TargetPath := ''out'', SpecificFile := ''c.proto''\<rparr>"

definition ex_resolved_config :: SyncConfig where
  "ex_resolved_config = ex_config\<lparr>TargetPath := ''out''\<rparr>"

definition ex_s1 :: "string list state" where
  \<comment> \<open>after validation and buf.yaml\<close>
  "ex_s1 = ex_state\<lparr>calls := [Call_FileExists ''buf.yaml'', Call_ParseBufYaml ''buf.yaml'']\<rparr>"

definition ex_s2 :: "string list state" where
  \<comment> \<open>after the first repository\<close>
  "ex_s2 =
     \<lparr>world = ''out/b.proto'' # ''out/a.proto'' # world ex_state,
      calls = calls ex_s1 @
        [Call_DownloadModule ''github.com/acme/x'' ''v1.2.3'',
         Call_GetModulePath ''github.com/acme/x'' ''v1.2.3'',
         Call_FileExists ex_dir, Call_FileExists ''out'',
         Call_ListFiles ex_dir ''*.proto'', Call_ListFiles ''out'' ''*.proto'',
         Call_CopyFile (ex_dir @ ''/a.proto'') ''out/a.proto'',
         Call_CopyFile (ex_dir @ ''/b.proto'') ''out/b.proto'']\<rparr>"

definition ex_s3 :: "string list state" where
  \<comment> \<open>after the failed download of the second repository\<close>
  "ex_s3 = ex_s2\<lparr>calls := calls ex_s2 @ [Call_DownloadModule ''github.com/acme/y'' ''v0.8.5'']\<rparr>"

definition ex_cancelled_outcomes :: "SyncResult list" where
  "ex_cancelled_outcomes =
     [\<lparr>Repository = repo_x, FilesUpdated = [], Success = False,
       Error = Some ''failed to download module: context canceled''\<rparr>,
      \<lparr>Repository = repo_y, FilesUpdated = [], Success = False,
       Error = Some ''failed to download module: context canceled''\<rparr>]"

definition ex_cancelled_state :: "string list state" where
  "ex_cancelled_state =
     ex_s1\<lparr>calls := calls ex_s1 @
        [Call_DownloadModule ''github.com/acme/x'' ''v1.2.3'',
         Call_DownloadModule ''github.com/acme/y'' ''v0.8.5'']\<rparr>"

definition ex_dry_outcomes :: "SyncResult list" where
  "ex_dry_outcomes =
     [\<lparr>Repository = repo_x, FilesUpdated = [], Success = True, Error = None\<rparr>,
      \<lparr>Repository = repo_y, FilesUpdated = [], Success = True, Error = None\<rparr>]"

definition ex_dry_state :: "string list state" where
  "ex_dry_state =
     ex_s1\<lparr>calls := calls ex_s1 @
        [Call_GetModulePath ''github.com/acme/x'' ''v1.2.3'', Call_FileExists ex_dir,
         Call_ListFiles ex_dir ''*.proto'',
         Call_GetModulePath ''github.com/acme/y'' ''v0.8.5'',
         Call_FileExists ''/cache/github.com/acme/y@v0.8.5/proto'']\<rparr>"

definition ex_override_outcomes :: "SyncResult list" where
  "ex_override_outcomes =
     [\<lparr>Repository = repo_x\<lparr>Version := ''v2.0.0''\<rparr>, FilesUpdated = [], Success = True,
       Error = None\<rparr>,
      \<lparr>Repository = repo_y\<lparr>Version := ''v2.0.0''\<rparr>, FilesUpdated = [], Success = True,
       Error = None\<rparr>]"

definition ex_missing_message :: string where
  "ex_missing_message =
     ''specific proto file not found: /cache/github.com/acme/x@v1.2.3/proto/c.proto'' @
     ''\<newline>Available proto files: a.proto, b.proto''"

section \<open>Properties of the parser\<close>

lemmas parser_defs = is_marker_def section_end_def TrimSpace_def is_space_def ToLower_def
  lower_char_def directive_def FindStringSubmatch_def replaceRegex_def runs_def rx_space_def
  rx_nonspace_def TrimPrefix_def Let_def

subsection \<open>Prefixes and substrings\<close>

lemma HasPrefix_iff: "HasPrefix s p \<longleftrightarrow> (\<exists>t. s = p @ t)"
  by (induction s p rule: HasPrefix.induct) auto

lemma Contains_iff: "Contains s sub \<longleftrightarrow> (\<exists>pre post. s = pre @ sub @ post)"
proof (induction s)
  case Nil
  then show ?case by (cases sub) auto
next
  case (Cons c cs)
  show ?case
  proof
    assume "Contains (c # cs) sub"
    then consider "HasPrefix (c # cs) sub" | "Contains cs sub" by auto
    then show "\<exists>pre post. c # cs = pre @ sub @ post"
    proof cases
      case 1
      then obtain t where "c # cs = sub @ t" by (auto simp: HasPrefix_iff)
      then have "c # cs = [] @ sub @ t" by simp
      then show ?thesis by blast
    next
      case 2
      with Cons obtain pre post where "cs = pre @ sub @ post" by blast
      then have "c # cs = (c # pre) @ sub @ post" by simp
      then show ?thesis by blast
    qed
  next
    assume "\<exists>pre post. c # cs = pre @ sub @ post"
    then obtain pre post where e: "c # cs = pre @ sub @ post" by blast
    show "Contains (c # cs) sub"
    proof (cases pre)
      case Nil
      with e have "HasPrefix (c # cs) sub" by (auto simp: HasPrefix_iff)
      then show ?thesis by simp
    next
      case (Cons a pre')
      with e have "cs = pre' @ sub @ post" by simp
      with Cons.IH have "Contains cs sub" by blast
      then show ?thesis by simp
    qed
  qed
qed

lemma Contains_Join_strings:
  assumes "n \<in> set names"
  shows "Contains (pre @ Join_strings names sep) n"
proof -
  from assms have "\<exists>a b. Join_strings names sep = a @ n @ b"
  proof (induction names sep rule: Join_strings.induct)
    case (1 sep)
    then show ?case by simp
  next
    case (2 x sep)
    then have "Join_strings [x] sep = [] @ n @ []" by simp
    then show ?case by blast
  next
    case (3 x y ys sep)
    show ?case
    proof (cases "n = x")
      case True
      then have "Join_strings (x # y # ys) sep = [] @ n @ (sep @ Join_strings (y # ys) sep)"
        by simp
      then show ?thesis by blast
    next
      case False
      with 3 obtain a b where "Join_strings (y # ys) sep = a @ n @ b" by auto
      then have "Join_strings (x # y # ys) sep = (x @ sep @ a) @ n @ b" by simp
      then show ?thesis by blast
    qed
  qed
  then obtain a b where "Join_strings names sep = a @ n @ b" by blast
  then have "pre @ Join_strings names sep = (pre @ a) @ n @ b" by simp
  then show ?thesis unfolding Contains_iff by blast
qed

subsection \<open>The scanner\<close>

text \<open>A text made of short lines, each closed by a line feed, is scanned into these lines
  with no error.\<close>

lemma scan_from_line:
  "CHR 0x0A \<notin> set l \<Longrightarrow> n + length l \<le> 65535 \<Longrightarrow>
     scan_from acc n (l @ CHR 0x0A # rest)
       = (case scan_from [] 0 rest of (ls, e) \<Rightarrow> (dropCR (rev acc @ l) # ls, e))"
proof (induction l arbitrary: acc n)
  case Nil
  then show ?case by simp
next
  case (Cons c l)
  from Cons.prems have "c \<noteq> CHR 0x0A" "\<not> 65535 \<le> n" "CHR 0x0A \<notin> set l"
    "Suc n + length l \<le> 65535"
    by auto
  with Cons.IH [of "Suc n" "c # acc"] show ?case by simp
qed

lemma ScanLines_lines:
  "list_all short_line ls \<Longrightarrow> ScanLines (concat (map (\<lambda>l. l @ [CHR 0x0A]) ls)) = (ls, None)"
proof (induction ls)
  case Nil
  then show ?case by (simp add: ScanLines_def)
next
  case (Cons l ls)
  then have "scan_from [] 0 (concat (map (\<lambda>l. l @ [CHR 0x0A]) ls)) = (ls, None)"
    by (simp add: ScanLines_def)
  moreover from Cons.prems have "CHR 0x0A \<notin> set l" "0 + length l \<le> 65535" "dropCR l = l"
    by (auto simp: short_line_def dropCR_def)
  ultimately show ?case
    using scan_from_line [of l 0 "[]" "concat (map (\<lambda>l. l @ [CHR 0x0A]) ls)"]
    by (simp add: ScanLines_def)
qed

subsection \<open>The regular expression on a directive\<close>

lemma runs_longest:
  assumes "list_all p t" and "rest = [] \<or> \<not> p (hd rest)" and "n \<le> length t"
  shows "\<exists>others. runs p n (t @ rest) = (t, rest) # others"
proof -
  from assms(1,2) have "takeWhile p (t @ rest) = t"
    by (cases rest) (auto simp: list_all_iff takeWhile_append2 takeWhile_eq_all_conv)
  moreover from assms(3) have "rev [n ..< Suc (length t)] = length t # rev [n ..< length t]"
    by simp
  ultimately show ?thesis by (simp add: runs_def)
qed

lemma rx_match_Rep:
  assumes "list_all p t" and "rest = [] \<or> \<not> p (hd rest)" and "n \<le> length t"
    and "rx_match r rest = Some (groups, left)"
  shows "rx_match (Rep p n # r) (t @ rest) = Some (groups, left)"
  using runs_longest [OF assms(1,2,3)] assms(4) by auto

lemma rx_match_Cap:
  assumes "list_all p t" and "rest = [] \<or> \<not> p (hd rest)" and "n \<le> length t"
    and "rx_match r rest = Some (groups, left)"
  shows "rx_match (Cap p n # r) (t @ rest) = Some (t # groups, left)"
  using runs_longest [OF assms(1,2,3)] assms(4) by auto

lemma rx_match_Lit:
  assumes "rx_match r rest = Some (groups, left)"
  shows "rx_match (Lit l # r) (l @ rest) = Some (groups, left)"
  using assms by (simp add: HasPrefix_iff)

lemma token_hd: "token t \<Longrightarrow> \<not> rx_space (hd (t @ rest))"
  by (cases t) (auto simp: token_def rx_nonspace_def)

text \<open>The regular expression matches every directive written with single spaces, and its
  groups are the four words.\<close>

lemma canonical_directive_matches:
  assumes "token a" "token b" "token c" "token d"
  shows "FindStringSubmatch replaceRegex (''replace '' @ a @ '' '' @ b @ '' => '' @ c @ '' '' @ d)
           = [''replace '' @ a @ '' '' @ b @ '' => '' @ c @ '' '' @ d, a, b, c, d]"
proof -
  have sp: "list_all rx_space '' ''" "rx_space CHR '' ''" by (simp_all add: rx_space_def)
  have m12: "rx_match [Cap rx_nonspace 1] d = Some ([d], [])"
    using rx_match_Cap [of rx_nonspace d "[]" 1 "[]" "[]" "[]"] assms(4)
    by (cases d) (auto simp: token_def)
  have m11: "rx_match [Rep rx_space 1, Cap rx_nonspace 1] ('' '' @ d) = Some ([d], [])"
    using rx_match_Rep [of rx_space "'' ''" d 1, OF _ _ _ m12] token_hd [OF assms(4), of "[]"]
    by (simp add: rx_space_def)
  have m10: "rx_match [Cap rx_nonspace 1, Rep rx_space 1, Cap rx_nonspace 1] (c @ '' '' @ d)
               = Some ([c, d], [])"
    using rx_match_Cap [of rx_nonspace c "'' '' @ d" 1, OF _ _ _ m11] assms(3)
    by (cases c) (auto simp: token_def rx_nonspace_def rx_space_def)
  have m9: "rx_match [Rep rx_space 0, Cap rx_nonspace 1, Rep rx_space 1, Cap rx_nonspace 1]
               ('' '' @ c @ '' '' @ d) = Some ([c, d], [])"
    using rx_match_Rep [of rx_space "'' ''" "c @ '' '' @ d" 0, OF _ _ _ m10]
      token_hd [OF assms(3), of "'' '' @ d"]
    by (simp add: rx_space_def)
  have m8: "rx_match [Lit ''=>'', Rep rx_space 0, Cap rx_nonspace 1, Rep rx_space 1,
                      Cap rx_nonspace 1] (''=>'' @ '' '' @ c @ '' '' @ d) = Some ([c, d], [])"
    using m9 by (rule rx_match_Lit)
  have m7: "rx_match [Rep rx_space 0, Lit ''=>'', Rep rx_space 0, Cap rx_nonspace 1,
                      Rep rx_space 1, Cap rx_nonspace 1]
              ('' '' @ ''=>'' @ '' '' @ c @ '' '' @ d) = Some ([c, d], [])"
    using rx_match_Rep [of rx_space "'' ''" "''=>'' @ '' '' @ c @ '' '' @ d" 0, OF _ _ _ m8]
    by (simp add: rx_space_def)
  have m6: "rx_match [Cap rx_nonspace 1, Rep rx_space 0, Lit ''=>'', Rep rx_space 0,
                      Cap rx_nonspace 1, Rep rx_space 1, Cap rx_nonspace 1]
              (b @ '' '' @ ''=>'' @ '' '' @ c @ '' '' @ d) = Some ([b, c, d], [])"
    using rx_match_Cap [of rx_nonspace b "'' '' @ ''=>'' @ '' '' @ c @ '' '' @ d" 1, OF _ _ _ m7]
      assms(2)
    by (cases b) (auto simp: token_def rx_nonspace_def rx_space_def)
  have m5: "rx_match [Rep rx_space 1, Cap rx_nonspace 1, Rep rx_space 0, Lit ''=>'',
                      Rep rx_space 0, Cap rx_nonspace 1, Rep rx_space 1, Cap rx_nonspace 1]
              ('' '' @ b @ '' '' @ ''=>'' @ '' '' @ c @ '' '' @ d) = Some ([b, c, d], [])"
    using rx_match_Rep [of rx_space "'' ''" "b @ '' '' @ ''=>'' @ '' '' @ c @ '' '' @ d" 1,
        OF _ _ _ m6] token_hd [OF assms(2), of "'' '' @ ''=>'' @ '' '' @ c @ '' '' @ d"]
    by (simp add: rx_space_def)
  have m4: "rx_match [Cap rx_nonspace 1, Rep rx_space 1, Cap rx_nonspace 1, Rep rx_space 0,
                      Lit ''=>'', Rep rx_space 0, Cap rx_nonspace 1, Rep rx_space 1,
                      Cap rx_nonspace 1]
              (a @ '' '' @ b @ '' '' @ ''=>'' @ '' '' @ c @ '' '' @ d) = Some ([a, b, c, d], [])"
    using rx_match_Cap [of rx_nonspace a
        "'' '' @ b @ '' '' @ ''=>'' @ '' '' @ c @ '' '' @ d" 1, OF _ _ _ m5] assms(1)
    by (cases a) (auto simp: token_def rx_nonspace_def rx_space_def)
  have m3: "rx_match [Rep rx_space 1, Cap rx_nonspace 1, Rep rx_space 1, Cap rx_nonspace 1,
                      Rep rx_space 0, Lit ''=>'', Rep rx_space 0, Cap rx_nonspace 1,
                      Rep rx_space 1, Cap rx_nonspace 1]
              ('' '' @ a @ '' '' @ b @ '' '' @ ''=>'' @ '' '' @ c @ '' '' @ d)
              = Some ([a, b, c, d], [])"
    using rx_match_Rep [of rx_space "'' ''"
        "a @ '' '' @ b @ '' '' @ ''=>'' @ '' '' @ c @ '' '' @ d" 1, OF _ _ _ m4]
      token_hd [OF assms(1), of "'' '' @ b @ '' '' @ ''=>'' @ '' '' @ c @ '' '' @ d"]
    by (simp add: rx_space_def)
  have m2: "rx_match (Lit ''replace'' # [Rep rx_space 1, Cap rx_nonspace 1, Rep rx_space 1,
                      Cap rx_nonspace 1, Rep rx_space 0, Lit ''=>'', Rep rx_space 0,
                      Cap rx_nonspace 1, Rep rx_space 1, Cap rx_nonspace 1])
              (''replace'' @ '' '' @ a @ '' '' @ b @ '' '' @ ''=>'' @ '' '' @ c @ '' '' @ d)
              = Some ([a, b, c, d], [])"
    using m3 by (rule rx_match_Lit)
  have m1: "rx_match replaceRegex
              ([] @ ''replace'' @ '' '' @ a @ '' '' @ b @ '' '' @ ''=>'' @ '' '' @ c @ '' '' @ d)
              = Some ([a, b, c, d], [])"
    unfolding replaceRegex_def
    by (rule rx_match_Rep [OF _ _ _ m2]) (simp_all add: rx_space_def)
  then show ?thesis
    by (simp add: FindStringSubmatch_def)
qed

subsection \<open>The loop over the lines\<close>








lemma scan_loop_found:
  "fst (scan_loop found repos lines) \<longleftrightarrow> found \<or> (\<exists>l \<in> set lines. is_marker (TrimSpace l))"
  by (induction lines arbitrary: found repos) (auto simp: Let_def split: option.splits)

lemma scan_loop_stopped:
  "snd (snd (scan_loop found repos lines)) \<Longrightarrow> fst (scan_loop found repos lines)"
  by (induction lines arbitrary: found repos)
    (auto simp: Let_def split: option.splits if_splits)


subsection \<open>The example manifest, evaluated\<close>





subsection \<open>The regular expression and the shape of the specification\<close>














subsection \<open>The manifests with comments, evaluated\<close>













subsection \<open>The sources of an annotated section\<close>




subsection \<open>The marker\<close>

text \<open>
  Claim C4, as stated, fails. The parser does not accept every comment line that contains
  the phrase: the line \<^verbatim>\<open>//Protobuf libraries\<close>, a comment with the phrase and no space
  after the slashes, is not a marker, and the parser fails with the marker-not-found error
  on a manifest that has it.
\<close>

theorem unspaced_marker_not_recognised:
  "ex_fs ''bad/go.mod'' = Inr ex_unmarked
   \<and> ScanLines ex_unmarked
       = ([''module example.com/test-project'', ''//Protobuf libraries'',
           ''replace local-x v0.0.0 => github.com/acme/x v1.2.3''], None)
   \<and> HasPrefix ''//Protobuf libraries'' ''//''
   \<and> Contains ''//Protobuf libraries'' ''Protobuf libraries''
   \<and> ParseProtobufLibraries ex_fs ''bad/go.mod'' = Inl (marker_not_found ''bad/go.mod'')"
  by (simp add: ex_fs_def ex_unmarked_def ScanLines_def dropCR_def ParseProtobufLibraries_def
      marker_not_found_def parser_defs)

text \<open>
  Claim C4, amended. For a manifest (ASCII text) that opens, the parser fails with the
  marker-not-found error exactly when the scanner reports no error and no scanned line
  contains, once trimmed and put in lower case, the literal text
  \<^verbatim>\<open>// protobuf libraries\<close>: two slashes, one space, \<^verbatim>\<open>protobuf\<close>, one space,
  \<^verbatim>\<open>libraries\<close>. The case of the letters and what stands before or after the literal on
  the line do not matter; the spacing inside it does.
\<close>

theorem marker_not_found_iff:
  assumes "fs goModPath = Inr manifest" and "ascii manifest"
    and "ScanLines manifest = (lines, scanErr)"
  shows "ParseProtobufLibraries fs goModPath = Inl (marker_not_found goModPath)
           \<longleftrightarrow> scanErr = None \<and> (\<forall>l \<in> set lines. \<not> is_marker (TrimSpace l))"
proof -
  obtain found repos stopped where l: "scan_loop False [] lines = (found, repos, stopped)"
    by (cases "scan_loop False [] lines")
  from scan_loop_found [of False "[]" lines] l
  have f: "found \<longleftrightarrow> (\<exists>l \<in> set lines. is_marker (TrimSpace l))" by simp
  from scan_loop_stopped [of False "[]" lines] l
  have s: "stopped \<Longrightarrow> found" by simp
  have p: "ParseProtobufLibraries fs goModPath =
          (case (if stopped then None else scanErr) of
             Some err \<Rightarrow> Inl (''error reading go.mod file: '' @ err)
           | None \<Rightarrow>
               if \<not> found then Inl (marker_not_found goModPath)
               else Inr \<lparr>GoMod_Repositories = repos, GoMod_ModuleName = []\<rparr>)"
    using assms(1,3) l
    by (simp add: ParseProtobufLibraries_def marker_not_found_def split: option.splits)
  show ?thesis
  proof (cases found)
    case True
    with p f show ?thesis by (auto split: option.splits simp: marker_not_found_def)
  next
    case False
    with s have "\<not> stopped" by blast
    with p f False show ?thesis by (auto split: option.splits simp: marker_not_found_def)
  qed
qed

theorem marker_not_found_iff_witness:
  "ex_fs ''bad/go.mod'' = Inr ex_unmarked \<and> ascii ex_unmarked
   \<and> ScanLines ex_unmarked
       = ([''module example.com/test-project'', ''//Protobuf libraries'',
           ''replace local-x v0.0.0 => github.com/acme/x v1.2.3''], None)
   \<and> \<not> is_marker (TrimSpace ''module example.com/test-project'')
   \<and> \<not> is_marker (TrimSpace ''//Protobuf libraries'')
   \<and> \<not> is_marker (TrimSpace ''replace local-x v0.0.0 => github.com/acme/x v1.2.3'')
   \<and> ParseProtobufLibraries ex_fs ''bad/go.mod'' = Inl (marker_not_found ''bad/go.mod'')"
proof -
  have f: "ex_fs ''bad/go.mod'' = Inr ex_unmarked" by (simp add: ex_fs_def)
  have a: "ascii ex_unmarked" by (simp add: ascii_def ex_unmarked_def)
  have s: "ScanLines ex_unmarked
       = ([''module example.com/test-project'', ''//Protobuf libraries'',
           ''replace local-x v0.0.0 => github.com/acme/x v1.2.3''], None)"
    by (simp add: ScanLines_def ex_unmarked_def dropCR_def)
  have m: "\<not> is_marker (TrimSpace ''module example.com/test-project'')"
    "\<not> is_marker (TrimSpace ''//Protobuf libraries'')"
    "\<not> is_marker (TrimSpace ''replace local-x v0.0.0 => github.com/acme/x v1.2.3'')"
    by (simp_all add: parser_defs)
  from marker_not_found_iff [of ex_fs "''bad/go.mod''", OF f a s] m
  have "ParseProtobufLibraries ex_fs ''bad/go.mod'' = Inl (marker_not_found ''bad/go.mod'')"
    by simp
  with f a s m show ?thesis by simp
qed

subsection \<open>A remote path on another host\<close>



section \<open>Properties of the sync service\<close>

lemmas service_defs = Sync_def resolve_def ValidateConfig_def processRepository_def
  dryRunRepository_def copySpecificFile_def copyAllProtoFiles_def override_version_def
  single_repo_def invoke_def CopyFile_def CreateDir_def FileExists_def ListFiles_def
  MakeWritable_def ParseLibraries_def DownloadModule_def GetModulePath_def ParseBufYaml_def
  Join_def Clean_def no_file_def Let_def

lemmas ex_defs = ex_env_def ex_state_def ex_config_def repo_x_def repo_y_def ex_dir_def
  ex_files_def running_def cancelled_def ex_outcomes_def ex_dry_config_def
  ex_override_config_def ex_specific_config_def ex_resolved_config_def ex_s1_def ex_s2_def
  ex_s3_def ex_cancelled_outcomes_def ex_cancelled_state_def ex_dry_outcomes_def
  ex_dry_state_def ex_missing_message_def

subsection \<open>Joined paths\<close>

lemma split_sep_not_Nil: "split_sep s \<noteq> []"
  by (induction s) (auto split: list.splits)

lemma split_sep_plain: "CHR ''/'' \<notin> set f \<Longrightarrow> split_sep f = [f]"
  by (induction f) (auto split: list.splits)

lemma split_sep_append:
  "CHR ''/'' \<notin> set f \<Longrightarrow> split_sep (d @ CHR ''/'' # f) = split_sep d @ [f]"
proof (induction d)
  case Nil
  then show ?case by (simp add: split_sep_plain)
next
  case (Cons c d)
  then show ?case
    using split_sep_not_Nil [of d] by (cases "split_sep d") auto
qed

lemma clean_elems_snoc:
  "f \<noteq> [] \<Longrightarrow> f \<noteq> ''.'' \<Longrightarrow> f \<noteq> ''..'' \<Longrightarrow>
     clean_elems rooted out (es @ [f]) = clean_elems rooted out es @ [f]"
  by (induction rooted out es rule: clean_elems.induct) (auto split: list.splits)

lemma Join_strings_snoc:
  "Join_strings (xs @ [f]) sep = (if xs = [] then f else Join_strings xs sep @ sep @ f)"
  by (induction xs sep rule: Join_strings.induct) auto

text \<open>A base file name joined to a directory is the end of the joined path.\<close>

lemma Join_plain_name:
  assumes "plain_name f"
  shows "\<exists>pre. Join d f = pre @ f"
proof (cases "d = []")
  case True
  from assms have "split_sep f = [f]" and "hd f \<noteq> CHR ''/''" and "f \<noteq> []"
    by (auto simp: plain_name_def split_sep_plain dest: hd_in_set)
  moreover have "clean_elems False [] [f] = [f]"
    using assms by (simp add: plain_name_def)
  ultimately have "Join d f = f"
    using True by (simp add: Join_def Clean_def)
  then show ?thesis by simp
next
  case False
  let ?p = "d @ CHR ''/'' # f"
  let ?r = "hd ?p = CHR ''/''"
  from assms have sp: "split_sep ?p = split_sep d @ [f]"
    by (simp add: plain_name_def split_sep_append)
  from assms
  have ce: "clean_elems ?r [] (split_sep ?p) = clean_elems ?r [] (split_sep d) @ [f]"
    unfolding sp by (intro clean_elems_snoc) (auto simp: plain_name_def)
  have "\<exists>pre. Clean ?p = pre @ f"
  proof (cases ?r)
    case True
    then have "Clean ?p = ''/'' @ Join_strings (clean_elems True [] (split_sep d) @ [f]) ''/''"
      using ce by (simp add: Clean_def Let_def)
    then show ?thesis
      by (auto simp: Join_strings_snoc)
  next
    case False
    then have "Clean ?p = Join_strings (clean_elems False [] (split_sep d) @ [f]) ''/''"
      using ce by (simp add: Clean_def Let_def)
    then show ?thesis
      by (auto simp: Join_strings_snoc)
  qed
  with False show ?thesis by (simp add: Join_def)
qed

lemma Contains_Join_plain_name:
  assumes "plain_name f"
  shows "Contains (pre @ Join d f @ post) f"
proof -
  from assms obtain q where "Join d f = q @ f" using Join_plain_name by blast
  then have "pre @ Join d f @ post = (pre @ q) @ f @ post" by simp
  then show ?thesis unfolding Contains_iff by blast
qed

subsection \<open>Calls that write\<close>

lemma invoke_writes:
  "invoke c m s = (r, s') \<Longrightarrow> writes s' = writes s @ filter is_write [c]"
  by (auto simp: invoke_def writes_def split: prod.splits)

lemma FileExists_writes: "FileExists env p s = (r, s') \<Longrightarrow> writes s' = writes s"
  by (auto simp: FileExists_def dest!: invoke_writes)

lemma ListFiles_writes: "ListFiles env p pat s = (r, s') \<Longrightarrow> writes s' = writes s"
  by (auto simp: ListFiles_def dest!: invoke_writes)

lemma GetModulePath_writes: "GetModulePath env n v s = (r, s') \<Longrightarrow> writes s' = writes s"
  by (auto simp: GetModulePath_def dest!: invoke_writes)

lemma ParseBufYaml_writes: "ParseBufYaml env p s = (r, s') \<Longrightarrow> writes s' = writes s"
  by (auto simp: ParseBufYaml_def dest!: invoke_writes)

lemma ParseLibraries_writes: "ParseLibraries env p s = (r, s') \<Longrightarrow> writes s' = writes s"
  by (auto simp: ParseLibraries_def dest!: invoke_writes)

lemma dryRunRepository_writes:
  "dryRunRepository env repo config s = (r, s') \<Longrightarrow> writes s' = writes s"
  by (auto simp: dryRunRepository_def Let_def split: prod.splits sum.splits if_splits
      dest!: FileExists_writes ListFiles_writes GetModulePath_writes)

lemma ValidateConfig_writes:
  "ValidateConfig env config s = (r, s') \<Longrightarrow> writes s' = writes s"
  by (auto simp: ValidateConfig_def split: option.splits prod.splits if_splits
      dest!: FileExists_writes)

lemma resolve_writes:
  "resolve env config s = (r, s') \<Longrightarrow> writes s' = writes s"
  by (auto simp: resolve_def Let_def split: option.splits prod.splits sum.splits if_splits
      dest!: ValidateConfig_writes ParseBufYaml_writes ParseLibraries_writes)

subsection \<open>One repository\<close>

lemma dryRunRepository_result:
  "dryRunRepository env repo config s = (r, s') \<Longrightarrow>
     r = \<lparr>Repository = repo, FilesUpdated = [], Success = True, Error = None\<rparr>"
  by (auto simp: dryRunRepository_def Let_def split: prod.splits sum.splits if_splits)

lemma processRepository_Success_iff:
  "processRepository env ctx repo config s = (r, s') \<Longrightarrow> Success r \<longleftrightarrow> Error r = None"
  by (auto simp: processRepository_def Let_def dest!: dryRunRepository_result
      split: prod.splits sum.splits option.splits if_splits)

lemma processRepository_Repository:
  "processRepository env ctx repo config s = (r, s') \<Longrightarrow> Repository r = repo"
  by (auto simp: processRepository_def Let_def dest!: dryRunRepository_result
      split: prod.splits sum.splits option.splits if_splits)

lemma processRepository_ctx:
  assumes "DryRun c \<or> goModRepo_DownloadModule env ctx = goModRepo_DownloadModule env ctx'"
  shows "processRepository env ctx repo c s = processRepository env ctx' repo c s"
proof (cases "DryRun c")
  case True
  then show ?thesis by (simp add: processRepository_def)
next
  case False
  with assms have "goModRepo_DownloadModule env ctx = goModRepo_DownloadModule env ctx'"
    by simp
  then have "DownloadModule env ctx = DownloadModule env ctx'"
    unfolding DownloadModule_def by simp
  then show ?thesis by (simp add: processRepository_def Let_def)
qed

subsection \<open>The loop over the repositories\<close>

lemma process_each_Success_iff:
  "process_each env ctx config repos s = (results, s') \<Longrightarrow>
     \<forall>r \<in> set results. Success r \<longleftrightarrow> Error r = None"
proof (induction repos arbitrary: s results)
  case Nil
  then show ?case by simp
next
  case (Cons repo rest)
  then show ?case
    by (auto split: prod.splits dest: processRepository_Success_iff)
qed

lemma process_each_Repository:
  "process_each env ctx config repos s = (results, s') \<Longrightarrow> map Repository results = repos"
proof (induction repos arbitrary: s results)
  case Nil
  then show ?case by simp
next
  case (Cons repo rest)
  then show ?case
    by (auto split: prod.splits dest: processRepository_Repository)
qed

lemma process_each_dry:
  "DryRun config \<Longrightarrow> process_each env ctx config repos s = (results, s') \<Longrightarrow>
     writes s' = writes s \<and> (\<forall>r \<in> set results. Success r)"
proof (induction repos arbitrary: s results)
  case Nil
  then show ?case by simp
next
  case (Cons repo rest)
  then show ?case
    by (fastforce simp: processRepository_def split: prod.splits
        dest: dryRunRepository_writes dryRunRepository_result)
qed

lemma process_each_ctx:
  assumes "DryRun c \<or> goModRepo_DownloadModule env ctx = goModRepo_DownloadModule env ctx'"
  shows "process_each env ctx c repos s = process_each env ctx' c repos s"
  by (induction repos arbitrary: s) (simp_all add: processRepository_ctx [OF assms])

subsection \<open>The resolved repositories\<close>

lemma Sync_Inr:
  "Sync env ctx config s = (Inr results, s') \<Longrightarrow>
     \<exists>c repos s1. resolve env config s = (Inr (c, repos), s1)
        \<and> process_each env ctx c repos s1 = (results, s')"
  by (auto simp: Sync_def split: prod.splits sum.splits)

lemma resolve_config:
  "resolve env config s = (Inr (c, repos), s') \<Longrightarrow>
     \<exists>cfg. config = Some cfg \<and> (\<exists>p. c = cfg\<lparr>TargetPath := p\<rparr>)"
  by (auto simp: resolve_def Let_def split: option.splits prod.splits sum.splits if_splits)

lemma override_version_set:
  "v \<noteq> [] \<Longrightarrow> repo \<in> set (override_version v repos) \<Longrightarrow> Version repo = v"
  by (auto simp: override_version_def)

lemma resolve_versions:
  assumes "resolve env (Some cfg) s = (Inr (c, repos), s1)" and "SpecifiedVersion cfg \<noteq> []"
  shows "\<forall>repo \<in> set repos. Version repo = SpecifiedVersion cfg"
proof -
  from assms(1) obtain rs where
    "repos = single_repo (SingleRepo cfg) (override_version (SpecifiedVersion cfg) rs)"
    by (auto simp: resolve_def Let_def split: option.splits prod.splits sum.splits if_splits)
  then have "set repos \<subseteq> set (override_version (SpecifiedVersion cfg) rs)"
    by (auto simp: single_repo_def dest: in_set_takeD)
  with assms(2) show ?thesis by (auto dest: override_version_set)
qed

subsection \<open>The example, evaluated\<close>

lemma ex_sync_real:
  "Sync ex_env running (Some ex_config) ex_state = (Inr ex_outcomes, ex_s3)"
  by (simp add: service_defs ex_defs)

lemma ex_resolve:
  "resolve ex_env (Some ex_config) ex_state = (Inr (ex_resolved_config, [repo_x, repo_y]), ex_s1)"
  by (simp add: service_defs ex_defs)

lemma ex_resolve_dry:
  "resolve ex_env (Some ex_dry_config) ex_state
     = (Inr (ex_dry_config\<lparr>TargetPath := ''out''\<rparr>, [repo_x, repo_y]), ex_s1)"
  by (simp add: service_defs ex_defs)

lemma ex_first:
  "processRepository ex_env running repo_x ex_resolved_config ex_s1 = (ex_outcomes ! 0, ex_s2)"
  by (simp add: service_defs ex_defs)

lemma ex_second:
  "DownloadModule ex_env running (Name repo_y) (Version repo_y) ex_s2
     = (Some ''exit status 1'', ex_s3)"
  by (simp add: service_defs ex_defs)

lemma ex_sync_cancelled:
  "Sync ex_env cancelled (Some ex_config) ex_state
     = (Inr ex_cancelled_outcomes, ex_cancelled_state)"
  by (simp add: service_defs ex_defs)

lemma ex_sync_dry:
  "Sync ex_env cancelled (Some ex_dry_config) ex_state = (Inr ex_dry_outcomes, ex_dry_state)"
  by (simp add: service_defs ex_defs)

lemma ex_sync_dry_running:
  "Sync ex_env running (Some ex_dry_config) ex_state = (Inr ex_dry_outcomes, ex_dry_state)"
  by (simp add: service_defs ex_defs)

lemma ex_sync_override:
  "Sync ex_env running (Some ex_override_config) ex_state
     = (Inr ex_override_outcomes,
        snd (Sync ex_env running (Some ex_override_config) ex_state))"
  by (simp add: service_defs ex_defs ex_override_outcomes_def)

subsection \<open>Cancellation\<close>

text \<open>
  Claim C1, as stated, fails. \<open>Sync\<close> has no test of the context: with a context that is
  cancelled from the start, in real mode it still starts both repositories of the example
  (the downloader is called for each and fails) and returns both outcomes, not the empty
  list gathered before the first repository; in dry-run mode it previews both.
\<close>

theorem cancelled_run_processes_all:
  "cancelled (world ex_state)
   \<and> Sync ex_env cancelled (Some ex_config) ex_state
       = (Inr ex_cancelled_outcomes, ex_cancelled_state)
   \<and> length ex_cancelled_outcomes = 2
   \<and> calls ex_cancelled_state
       = [Call_FileExists ''buf.yaml'', Call_ParseBufYaml ''buf.yaml'',
          Call_DownloadModule ''github.com/acme/x'' ''v1.2.3'',
          Call_DownloadModule ''github.com/acme/y'' ''v0.8.5'']
   \<and> Sync ex_env cancelled (Some ex_dry_config) ex_state = (Inr ex_dry_outcomes, ex_dry_state)
   \<and> length ex_dry_outcomes = 2"
  using ex_sync_cancelled ex_sync_dry
  by (simp add: cancelled_def ex_cancelled_outcomes_def ex_dry_outcomes_def
      ex_cancelled_state_def ex_s1_def ex_state_def)

text \<open>
  Claim C1, amended. \<open>Sync\<close> does not look at the cancellation signal. Whatever the context,
  once validation, the target path and the list of repositories are resolved, it processes
  every resolved repository in order and returns one outcome for each, with no error. The
  context is only handed to \<^verbatim>\<open>DownloadModule\<close>: in dry-run mode, and for any downloader
  that does not distinguish two contexts, \<open>Sync\<close> returns the same result and leaves the
  same state under both.
\<close>

theorem sync_ignores_context:
  assumes "resolve env config s = (Inr (c, repos), s1)"
  shows "(\<exists>results s'. Sync env ctx config s = (Inr results, s')
            \<and> map Repository results = repos)
       \<and> (DryRun c \<or> goModRepo_DownloadModule env ctx = goModRepo_DownloadModule env ctx'
            \<longrightarrow> Sync env ctx config s = Sync env ctx' config s)"
proof -
  obtain results s' where p: "process_each env ctx c repos s1 = (results, s')"
    by (cases "process_each env ctx c repos s1")
  with assms have "Sync env ctx config s = (Inr results, s')"
    by (simp add: Sync_def)
  moreover have "map Repository results = repos"
    using p by (rule process_each_Repository)
  moreover have "Sync env ctx config s = Sync env ctx' config s"
    if "DryRun c \<or> goModRepo_DownloadModule env ctx = goModRepo_DownloadModule env ctx'"
    using assms process_each_ctx [OF that] by (simp add: Sync_def)
  ultimately show ?thesis by blast
qed

theorem sync_ignores_context_witness:
  "resolve ex_env (Some ex_dry_config) ex_state
     = (Inr (ex_dry_config\<lparr>TargetPath := ''out''\<rparr>, [repo_x, repo_y]), ex_s1)
   \<and> DryRun (ex_dry_config\<lparr>TargetPath := ''out''\<rparr>)
   \<and> Sync ex_env cancelled (Some ex_dry_config) ex_state = (Inr ex_dry_outcomes, ex_dry_state)
   \<and> map Repository ex_dry_outcomes = [repo_x, repo_y]
   \<and> Sync ex_env cancelled (Some ex_dry_config) ex_state
       = Sync ex_env running (Some ex_dry_config) ex_state"
proof -
  have d: "DryRun (ex_dry_config\<lparr>TargetPath := ''out''\<rparr>)"
    by (simp add: ex_dry_config_def)
  from sync_ignores_context [OF ex_resolve_dry, of cancelled running] d
  have "map Repository ex_dry_outcomes = [repo_x, repo_y]"
    and "Sync ex_env cancelled (Some ex_dry_config) ex_state
           = Sync ex_env running (Some ex_dry_config) ex_state"
    by (auto simp: ex_sync_dry)
  with d ex_resolve_dry ex_sync_dry show ?thesis by simp
qed

subsection \<open>Dry run\<close>

text \<open>
  Claim C2. For every configuration with \<open>DryRun\<close> set, every outcome that \<open>Sync\<close> returns
  has \<open>Success\<close> true, and the run calls none of \<^verbatim>\<open>CopyFile\<close>, \<^verbatim>\<open>WriteFile\<close>,
  \<^verbatim>\<open>CreateDir\<close> and \<^verbatim>\<open>MakeWritable\<close>: the calls that write are those made before the
  run.
\<close>

theorem dry_run_succeeds_without_writes:
  assumes "DryRun cfg" and "Sync env ctx (Some cfg) s = (outcome, s')"
  shows "filter is_write (calls s') = filter is_write (calls s)
         \<and> (\<forall>results. outcome = Inr results \<longrightarrow> (\<forall>r \<in> set results. Success r))"
proof (cases outcome)
  case (Inl err)
  with assms(2) have "resolve env (Some cfg) s = (Inl err, s')"
    by (auto simp: Sync_def split: prod.splits sum.splits)
  then have "writes s' = writes s" by (rule resolve_writes)
  with Inl show ?thesis by (simp add: writes_def)
next
  case (Inr results)
  with assms(2) obtain c repos s1 where
    r: "resolve env (Some cfg) s = (Inr (c, repos), s1)" and
    p: "process_each env ctx c repos s1 = (results, s')"
    by (blast dest: Sync_Inr)
  from r have "DryRun c" using assms(1) by (auto dest: resolve_config)
  from process_each_dry [OF this p] resolve_writes [OF r] Inr
  show ?thesis by (simp add: writes_def)
qed

theorem dry_run_succeeds_without_writes_witness:
  "DryRun ex_dry_config
   \<and> Sync ex_env running (Some ex_dry_config) ex_state = (Inr ex_dry_outcomes, ex_dry_state)
   \<and> filter is_write (calls ex_dry_state) = []
   \<and> Success (ex_dry_outcomes ! 0) \<and> Success (ex_dry_outcomes ! 1)"
proof -
  have d: "DryRun ex_dry_config" by (simp add: ex_dry_config_def ex_config_def)
  have "set ex_dry_outcomes = {ex_dry_outcomes ! 0, ex_dry_outcomes ! 1}"
    by (simp add: ex_dry_outcomes_def)
  moreover have "calls ex_state = []" by (simp add: ex_state_def)
  ultimately show ?thesis
    using dry_run_succeeds_without_writes [OF d ex_sync_dry_running] d ex_sync_dry_running
    by simp
qed

subsection \<open>A failed fetch\<close>

text \<open>
  Claim C5. Once the repositories are resolved, \<open>Sync\<close> returns outcomes and no error,
  whatever happens to a single repository, and the outcomes are those of the resolved
  repositories in their order. With two repositories in real mode, the first processed with
  success and the fetch of the second failing, the result is the first outcome, then an
  outcome for the second with \<open>Success\<close> false and the reason of the failed download.
\<close>

theorem failed_fetch_does_not_abort:
  assumes "resolve env config s = (Inr (c, repos), s1)"
  shows "\<exists>results s'. Sync env ctx config s = (Inr results, s')
           \<and> map Repository results = repos
           \<and> (\<forall>repo1 repo2 result1 s2 err s3.
                 repos = [repo1, repo2] \<longrightarrow> \<not> DryRun c
                 \<longrightarrow> processRepository env ctx repo1 c s1 = (result1, s2) \<longrightarrow> Success result1
                 \<longrightarrow> DownloadModule env ctx (Name repo2) (Version repo2) s2 = (Some err, s3)
                 \<longrightarrow> results = [result1,
                        \<lparr>Repository = repo2, FilesUpdated = [], Success = False,
                         Error = Some (''failed to download module: '' @ err)\<rparr>]
                     \<and> s' = s3)"
proof -
  obtain results s' where p: "process_each env ctx c repos s1 = (results, s')"
    by (cases "process_each env ctx c repos s1")
  with assms have run: "Sync env ctx config s = (Inr results, s')"
    by (simp add: Sync_def)
  have order: "map Repository results = repos"
    using p by (rule process_each_Repository)
  have "\<forall>repo1 repo2 result1 s2 err s3.
           repos = [repo1, repo2] \<longrightarrow> \<not> DryRun c
           \<longrightarrow> processRepository env ctx repo1 c s1 = (result1, s2) \<longrightarrow> Success result1
           \<longrightarrow> DownloadModule env ctx (Name repo2) (Version repo2) s2 = (Some err, s3)
           \<longrightarrow> results = [result1,
                  \<lparr>Repository = repo2, FilesUpdated = [], Success = False,
                   Error = Some (''failed to download module: '' @ err)\<rparr>]
               \<and> s' = s3"
  proof (intro allI impI)
    fix repo1 repo2 result1 s2 err s3
    assume "repos = [repo1, repo2]" "\<not> DryRun c"
      "processRepository env ctx repo1 c s1 = (result1, s2)"
      "DownloadModule env ctx (Name repo2) (Version repo2) s2 = (Some err, s3)"
    with p show "results = [result1,
                  \<lparr>Repository = repo2, FilesUpdated = [], Success = False,
                   Error = Some (''failed to download module: '' @ err)\<rparr>]
               \<and> s' = s3"
      by (auto simp: processRepository_def)
  qed
  with run order show ?thesis by (intro exI conjI)
qed

theorem failed_fetch_does_not_abort_witness:
  "resolve ex_env (Some ex_config) ex_state
     = (Inr (ex_resolved_config, [repo_x, repo_y]), ex_s1)
   \<and> \<not> DryRun ex_resolved_config
   \<and> processRepository ex_env running repo_x ex_resolved_config ex_s1 = (ex_outcomes ! 0, ex_s2)
   \<and> Success (ex_outcomes ! 0)
   \<and> DownloadModule ex_env running (Name repo_y) (Version repo_y) ex_s2
       = (Some ''exit status 1'', ex_s3)
   \<and> Sync ex_env running (Some ex_config) ex_state
       = (Inr [ex_outcomes ! 0,
               \<lparr>Repository = repo_y, FilesUpdated = [], Success = False,
                Error = Some ''failed to download module: exit status 1''\<rparr>], ex_s3)"
proof -
  have d: "\<not> DryRun ex_resolved_config"
    by (simp add: ex_resolved_config_def ex_config_def)
  have ok: "Success (ex_outcomes ! 0)" by (simp add: ex_outcomes_def)
  from failed_fetch_does_not_abort [OF ex_resolve, of running]
  obtain results s' where run: "Sync ex_env running (Some ex_config) ex_state = (Inr results, s')"
    and scenario: "\<forall>repo1 repo2 result1 s2 err s3.
       [repo_x, repo_y] = [repo1, repo2] \<longrightarrow> \<not> DryRun ex_resolved_config
       \<longrightarrow> processRepository ex_env running repo1 ex_resolved_config ex_s1 = (result1, s2)
       \<longrightarrow> Success result1
       \<longrightarrow> DownloadModule ex_env running (Name repo2) (Version repo2) s2 = (Some err, s3)
       \<longrightarrow> results = [result1,
              \<lparr>Repository = repo2, FilesUpdated = [], Success = False,
               Error = Some (''failed to download module: '' @ err)\<rparr>]
           \<and> s' = s3"
    by blast
  from scenario d ex_first ok ex_second
  have "results = [ex_outcomes ! 0,
          \<lparr>Repository = repo_y, FilesUpdated = [], Success = False,
           Error = Some (''failed to download module: '' @ ''exit status 1'')\<rparr>] \<and> s' = ex_s3"
    by blast
  with run d ok ex_resolve ex_first ex_second show ?thesis by simp
qed

subsection \<open>The version override\<close>

text \<open>
  Claim C6. For every list of \<open>K\<close> resolved repositories and every non-empty
  \<open>SpecifiedVersion\<close>, the override leaves \<open>K\<close> repositories, each with that version and
  with its name and URL unchanged; applying it twice gives the same list as applying it
  once. Every outcome that \<open>Sync\<close> returns under such a configuration carries the version.
\<close>

theorem override_version_uniform:
  assumes "specifiedVersion \<noteq> []"
  shows "length (override_version specifiedVersion repositories) = length repositories
       \<and> (\<forall>repo \<in> set (override_version specifiedVersion repositories).
             Version repo = specifiedVersion)
       \<and> map Name (override_version specifiedVersion repositories) = map Name repositories
       \<and> map URL (override_version specifiedVersion repositories) = map URL repositories
       \<and> override_version specifiedVersion (override_version specifiedVersion repositories)
           = override_version specifiedVersion repositories
       \<and> (SpecifiedVersion cfg = specifiedVersion
            \<longrightarrow> Sync env ctx (Some cfg) s = (Inr results, s')
            \<longrightarrow> (\<forall>r \<in> set results. Version (Repository r) = specifiedVersion))"
proof -
  have "SpecifiedVersion cfg = specifiedVersion
          \<longrightarrow> Sync env ctx (Some cfg) s = (Inr results, s')
          \<longrightarrow> (\<forall>r \<in> set results. Version (Repository r) = specifiedVersion)"
  proof (intro impI ballI)
    fix r
    assume v: "SpecifiedVersion cfg = specifiedVersion"
      and run: "Sync env ctx (Some cfg) s = (Inr results, s')" and r: "r \<in> set results"
    from run obtain c repos s1 where
      res: "resolve env (Some cfg) s = (Inr (c, repos), s1)" and
      p: "process_each env ctx c repos s1 = (results, s')"
      by (blast dest: Sync_Inr)
    from p have "map Repository results = repos" by (rule process_each_Repository)
    with r have "Repository r \<in> set repos" by auto
    with resolve_versions [OF res] v assms
    show "Version (Repository r) = specifiedVersion" by simp
  qed
  moreover
  have "length (override_version specifiedVersion repositories) = length repositories"
    by (simp add: override_version_def)
  moreover
  have "\<forall>repo \<in> set (override_version specifiedVersion repositories).
          Version repo = specifiedVersion"
    using assms by (auto dest: override_version_set)
  moreover
  have "map Name (override_version specifiedVersion repositories) = map Name repositories"
    "map URL (override_version specifiedVersion repositories) = map URL repositories"
    by (simp_all add: override_version_def)
  moreover
  have "override_version specifiedVersion (override_version specifiedVersion repositories)
          = override_version specifiedVersion repositories"
    by (simp add: override_version_def)
  ultimately show ?thesis by blast
qed

theorem override_version_uniform_witness:
  "''v2.0.0'' \<noteq> []
   \<and> override_version ''v2.0.0'' [repo_x, repo_y]
       = [repo_x\<lparr>Version := ''v2.0.0''\<rparr>, repo_y\<lparr>Version := ''v2.0.0''\<rparr>]
   \<and> override_version ''v2.0.0'' (override_version ''v2.0.0'' [repo_x, repo_y])
       = override_version ''v2.0.0'' [repo_x, repo_y]
   \<and> SpecifiedVersion ex_override_config = ''v2.0.0''
   \<and> fst (Sync ex_env running (Some ex_override_config) ex_state) = Inr ex_override_outcomes
   \<and> Version (Repository (ex_override_outcomes ! 0)) = ''v2.0.0''
   \<and> Version (Repository (ex_override_outcomes ! 1)) = ''v2.0.0''"
proof -
  have n: "''v2.0.0'' \<noteq> []" by simp
  have v: "SpecifiedVersion ex_override_config = ''v2.0.0''"
    by (simp add: ex_override_config_def ex_config_def)
  note u = override_version_uniform [OF n, of "[repo_x, repo_y]" ex_override_config ex_env
      running ex_state ex_override_outcomes
      "snd (Sync ex_env running (Some ex_override_config) ex_state)"]
  from u have "override_version ''v2.0.0'' (override_version ''v2.0.0'' [repo_x, repo_y])
       = override_version ''v2.0.0'' [repo_x, repo_y]"
    by blast
  moreover from u v ex_sync_override
  have "\<forall>r \<in> set ex_override_outcomes. Version (Repository r) = ''v2.0.0''"
    by blast
  then have "Version (Repository (ex_override_outcomes ! 0)) = ''v2.0.0''"
    and "Version (Repository (ex_override_outcomes ! 1)) = ''v2.0.0''"
    by (simp_all add: ex_override_outcomes_def)
  moreover have "override_version ''v2.0.0'' [repo_x, repo_y]
       = [repo_x\<lparr>Version := ''v2.0.0''\<rparr>, repo_y\<lparr>Version := ''v2.0.0''\<rparr>]"
    by (simp add: override_version_def)
  moreover have "fst (Sync ex_env running (Some ex_override_config) ex_state)
       = Inr ex_override_outcomes"
    using ex_sync_override by (metis fst_conv)
  ultimately show ?thesis using n v by simp
qed

subsection \<open>A specific file that is missing\<close>

text \<open>
  Claim C7. In real mode with \<open>SpecificFile\<close> set to a base file name, when the module is
  downloaded, its path resolved, the source directory present and the target directory
  present or created, and the file is absent from the source directory, the outcome has
  \<open>Success\<close> false and no updated file; its reason is the message of line 250, which
  contains the requested name and the name of every file that \<^verbatim>\<open>ListFiles\<close> returns for
  the pattern \<^verbatim>\<open>*.proto\<close> in that directory, joined by commas.
\<close>

theorem missing_specific_file_reported:
  assumes mode: "\<not> DryRun config"
    and named: "SpecificFile config = fileName" "plain_name fileName"
    and download: "DownloadModule env ctx (Name repo) (Version repo) s = (None, s1)"
    and path: "GetModulePath env (Name repo) (Version repo) s1 = (Inr modulePath, s2)"
    and source: "sourcePath = Join modulePath (SourcePath config)"
      "FileExists env sourcePath s2 = (True, s3)"
    and target: "FileExists env (TargetPath config) s3 = (dstExists, s4)"
      "(if \<not> dstExists then CreateDir env (TargetPath config) s4 else (None, s4)) = (None, s5)"
    and absent: "FileExists env (Join sourcePath fileName) s5 = (False, s6)"
    and listing: "ListFiles env sourcePath ''*.proto'' s6 = ((availableFiles, listErr), s7)"
  shows "\<exists>msg. processRepository env ctx repo config s
            = (\<lparr>Repository = repo, FilesUpdated = [], Success = False, Error = Some msg\<rparr>, s7)
          \<and> msg = ''specific proto file not found: '' @ Join sourcePath fileName
                @ ''\<newline>Available proto files: ''
                @ Join_strings (map File_Name availableFiles) '', ''
          \<and> Contains msg fileName
          \<and> (\<forall>f \<in> set availableFiles. Contains msg (File_Name f))"
proof -
  let ?head = "''specific proto file not found: ''"
  let ?tail = "''\<newline>Available proto files: ''
                 @ Join_strings (map File_Name availableFiles) '', ''"
  let ?msg = "?head @ Join sourcePath fileName @ ?tail"
  from named(2) have ne: "fileName \<noteq> []" by (simp add: plain_name_def)
  have copy: "copySpecificFile env sourcePath (TargetPath config) fileName s5
                = ((no_file, Some ?msg), s7)"
    using absent listing by (simp add: copySpecificFile_def Let_def)
  have run: "processRepository env ctx repo config s
               = (\<lparr>Repository = repo, FilesUpdated = [], Success = False,
                   Error = Some ?msg\<rparr>, s7)"
    using mode named(1) ne download path source target copy
    by (simp add: processRepository_def Let_def)
  have c1: "Contains ?msg fileName"
    using named(2) by (rule Contains_Join_plain_name)
  have c2: "\<forall>f \<in> set availableFiles. Contains ?msg (File_Name f)"
  proof
    fix f assume "f \<in> set availableFiles"
    then have "File_Name f \<in> set (map File_Name availableFiles)" by simp
    then have "Contains ((?head @ Join sourcePath fileName @ ''\<newline>Available proto files: '')
                 @ Join_strings (map File_Name availableFiles) '', '') (File_Name f)"
      by (rule Contains_Join_strings)
    then show "Contains ?msg (File_Name f)" by simp
  qed
  from run c1 c2 show ?thesis by blast
qed

theorem missing_specific_file_reported_witness:
  "\<not> DryRun ex_specific_config \<and> SpecificFile ex_specific_config = ''c.proto''
   \<and> plain_name ''c.proto''
   \<and> fst (processRepository ex_env running repo_x ex_specific_config ex_state)
       = \<lparr>Repository = repo_x, FilesUpdated = [], Success = False,
          Error = Some ex_missing_message\<rparr>
   \<and> Contains ex_missing_message ''c.proto''
   \<and> Contains ex_missing_message ''a.proto''
   \<and> Contains ex_missing_message ''b.proto''"
proof -
  let ?c1 = "[Call_DownloadModule ''github.com/acme/x'' ''v1.2.3'']"
  let ?c2 = "?c1 @ [Call_GetModulePath ''github.com/acme/x'' ''v1.2.3'']"
  let ?c3 = "?c2 @ [Call_FileExists ex_dir]"
  let ?c4 = "?c3 @ [Call_FileExists ''out'']"
  let ?c6 = "?c4 @ [Call_FileExists (ex_dir @ ''/c.proto'')]"
  let ?c7 = "?c6 @ [Call_ListFiles ex_dir ''*.proto'']"
  have mode: "\<not> DryRun ex_specific_config"
    and named: "SpecificFile ex_specific_config = ''c.proto''" "plain_name ''c.proto''"
    by (simp_all add: ex_specific_config_def ex_config_def plain_name_def)
  have download: "DownloadModule ex_env running (Name repo_x) (Version repo_x) ex_state
      = (None, ex_state\<lparr>calls := ?c1\<rparr>)"
    by (simp add: service_defs ex_defs)
  have path: "GetModulePath ex_env (Name repo_x) (Version repo_x) (ex_state\<lparr>calls := ?c1\<rparr>)
      = (Inr ''/cache/github.com/acme/x@v1.2.3'', ex_state\<lparr>calls := ?c2\<rparr>)"
    by (simp add: service_defs ex_defs)
  have source: "ex_dir = Join ''/cache/github.com/acme/x@v1.2.3'' (SourcePath ex_specific_config)"
    "FileExists ex_env ex_dir (ex_state\<lparr>calls := ?c2\<rparr>) = (True, ex_state\<lparr>calls := ?c3\<rparr>)"
    by (simp_all add: service_defs ex_defs)
  have target: "FileExists ex_env (TargetPath ex_specific_config) (ex_state\<lparr>calls := ?c3\<rparr>)
      = (True, ex_state\<lparr>calls := ?c4\<rparr>)"
    "(if \<not> True then CreateDir ex_env (TargetPath ex_specific_config) (ex_state\<lparr>calls := ?c4\<rparr>)
      else (None, ex_state\<lparr>calls := ?c4\<rparr>)) = (None, ex_state\<lparr>calls := ?c4\<rparr>)"
    by (simp_all add: service_defs ex_defs)
  have absent: "FileExists ex_env (Join ex_dir ''c.proto'') (ex_state\<lparr>calls := ?c4\<rparr>)
      = (False, ex_state\<lparr>calls := ?c6\<rparr>)"
    by (simp add: service_defs ex_defs)
  have listing: "ListFiles ex_env ex_dir ''*.proto'' (ex_state\<lparr>calls := ?c6\<rparr>)
      = ((ex_files, None), ex_state\<lparr>calls := ?c7\<rparr>)"
    by (simp add: service_defs ex_defs)
  have j: "Join ex_dir ''c.proto'' = ''/cache/github.com/acme/x@v1.2.3/proto/c.proto''"
    by (simp add: service_defs ex_defs)
  from missing_specific_file_reported
    [OF mode named download path source target absent listing]
  obtain msg where
    "processRepository ex_env running repo_x ex_specific_config ex_state
       = (\<lparr>Repository = repo_x, FilesUpdated = [], Success = False, Error = Some msg\<rparr>,
          ex_state\<lparr>calls := ?c7\<rparr>)"
    and m: "msg = ''specific proto file not found: '' @ Join ex_dir ''c.proto''
                @ ''\<newline>Available proto files: ''
                @ Join_strings (map File_Name ex_files) '', ''"
    and "Contains msg ''c.proto''"
    and "\<forall>f \<in> set ex_files. Contains msg (File_Name f)"
    by blast
  moreover from m j have "msg = ex_missing_message"
    by (simp add: ex_missing_message_def ex_files_def)
  ultimately show ?thesis
    using mode named by (simp add: ex_files_def)
qed

subsection \<open>Success and error of an outcome\<close>

text \<open>
  Claim C8. In every \<open>SyncResult\<close> that \<open>Sync\<close> returns, in dry-run mode and in real
  mode, \<open>Success\<close> is true if and only if \<open>Error\<close> is \<^verbatim>\<open>nil\<close>.
\<close>

theorem success_iff_no_error:
  "Sync env ctx config s = (Inr results, s') \<Longrightarrow>
     \<forall>r \<in> set results. Success r \<longleftrightarrow> Error r = None"
  by (blast dest: Sync_Inr process_each_Success_iff)

theorem success_iff_no_error_witness:
  "Sync ex_env running (Some ex_config) ex_state = (Inr ex_outcomes, ex_s3)
   \<and> (Success (ex_outcomes ! 0) \<longleftrightarrow> Error (ex_outcomes ! 0) = None)
   \<and> (Success (ex_outcomes ! 1) \<longleftrightarrow> Error (ex_outcomes ! 1) = None)"
proof -
  have "\<forall>r \<in> set ex_outcomes. Success r \<longleftrightarrow> Error r = None"
    by (rule success_iff_no_error [OF ex_sync_real])
  moreover have "set ex_outcomes = {ex_outcomes ! 0, ex_outcomes ! 1}"
    by (simp add: ex_outcomes_def)
  ultimately show ?thesis using ex_sync_real by simp
qed

subsection \<open>A \<^verbatim>\<open>nil\<close> configuration\<close>

text \<open>
  Claim C9. \<open>ValidateConfig\<close> called with a \<^verbatim>\<open>nil\<close> configuration returns an error and
  does not dereference the pointer; \<open>Sync\<close> on a \<^verbatim>\<open>nil\<close> configuration returns that
  error, wrapped, and calls no collaborator: the world and the list of calls are as before.
\<close>

theorem nil_config_rejected:
  "ValidateConfig env None s = (Some ''config cannot be nil'', s)
   \<and> Sync env ctx None s = (Inl ''invalid configuration: config cannot be nil'', s)"
  by (simp add: ValidateConfig_def Sync_def resolve_def)

theorem nil_config_rejected_witness:
  "ValidateConfig ex_env None ex_state = (Some ''config cannot be nil'', ex_state)
   \<and> Sync ex_env running None ex_state
       = (Inl ''invalid configuration: config cannot be nil'', ex_state)"
  by (rule nil_config_rejected)

end
